theory Spec2Isabelle
  imports Main "HOL-Library.AList" "HOL-Library.Multiset"
begin

section \<open>Values, errors and Go maps\<close>

text \<open>
  A value of Go's \<open>interface{}\<close> as the YAML decoder produces it. \<open>YMap\<close> is
  \<open>map[string]interface{}\<close>, \<open>YSeq\<close> is \<open>[]interface{}\<close>, \<open>YStr\<close> is a Go string
  (a decoded scalar or the raw text of a rendered file), \<open>YBool\<close> and \<open>YInt\<close> are the
  other decoded scalars, \<open>YNil\<close> is \<open>nil\<close>.

  A Go map is an association list with pairwise distinct keys; \<open>m[k] = v\<close> is
  \<open>AList.update k v m\<close> and a lookup is \<open>map_of m k\<close>. Where the order of a \<open>range\<close>
  over a map can be observed, the order is an explicit parameter (\<open>goruntime\<close> below).
\<close>

datatype yaml =
    YNil
  | YBool bool
  | YInt int
  | YStr string
  | YSeq "yaml list"
  | YMap "(string \<times> yaml) list"

type_synonym gomap = "(string \<times> yaml) list"

text \<open>
  The package's error values (\<open>errors.New\<close>), an error that comes out of a library
  (\<open>External\<close>), and \<open>fmt.Errorf\<close> with a message around another error (\<open>Wrapped\<close>).
\<close>

datatype error =
    FilepathValueEmpty
  | FilepathDirUnexpected
  | UnmatchedQuery
  | InvalidPolicyPath
  | PolicyFailure
  | DuplicatePolicyFailure
  | External string
  | Wrapped string error

section \<open>Merging values files\<close>

text \<open>
  \<open>mergeMaps(a, b)\<close>: \<open>out\<close> starts as a copy of \<open>a\<close>; then for every \<open>k, v\<close> of \<open>b\<close>,
  when \<open>v\<close> is a map and \<open>out[k]\<close> exists and is a map, \<open>out[k]\<close> becomes the merge of
  the two, and in every other case \<open>out[k] = v\<close>. \<open>mergeRange\<close> is the second loop.
\<close>

function mergeMaps :: "gomap \<Rightarrow> gomap \<Rightarrow> gomap"
  and mergeRange :: "gomap \<Rightarrow> gomap \<Rightarrow> gomap" where
  "mergeMaps a b = mergeRange (fold (\<lambda>(k, v) out. AList.update k v out) a []) b"
| "mergeRange out [] = out"
| "mergeRange out ((k, v) # b) =
     mergeRange
       (case v of
          YMap vm \<Rightarrow>
            (case map_of out k of
               Some (YMap bv) \<Rightarrow> AList.update k (YMap (mergeMaps bv vm)) out
             | _ \<Rightarrow> AList.update k v out)
        | _ \<Rightarrow> AList.update k v out)
       b"
  by pat_completeness auto
termination
  by (relation "measure (\<lambda>x. case x of
         Inl (a, b) \<Rightarrow> 2 * size_list (size_prod (\<lambda>_. 0) size) b + 1
       | Inr (out, b) \<Rightarrow> 2 * size_list (size_prod (\<lambda>_. 0) size) b)") auto


section \<open>The world outside the package\<close>

text \<open>
  Everything the package reaches through a library or the operating system is a field
  of \<open>world\<close>: the file system (\<open>ioutil.ReadFile\<close>, standard input, \<open>os.Open\<close>), the
  YAML library (\<open>yaml.Unmarshal\<close> into a map and into an \<open>interface{}\<close>, \<open>yaml.Marshal\<close>),
  the walk over the template directory, the Helm renderer, and the policy engine (\<open>tester.Load\<close> and a \<open>rego\<close> query).
\<close>

record expression =
  expr_text :: string
  expr_value :: yaml

text \<open>One \<open>rego.Result\<close> is its list of expressions; a \<open>rego.ResultSet\<close> is a list of results.\<close>

type_synonym result = "expression list"

text \<open>
  One query against the engine: \<open>PrepareForEval\<close> fails, or \<open>Eval\<close> fails, or \<open>Eval\<close>
  returns a result set, with the events the buffer tracer collected.
\<close>

datatype engine_outcome =
    PrepareFailed error
  | EvalFailed error
  | Evaluated "result list" "string list"

text \<open>
  A rule of a loaded module: \<open>rule.Head.Name\<close>, and \<open>rule.Head.Key\<close> as \<open>%s\<close> prints it
  (\<open>None\<close> is the nil key of a rule without one).
\<close>

record rule =
  head_name :: string
  head_key :: "string option"

record module =
  mod_rules :: "rule list"

text \<open>The triple \<open>tester.Load\<close> returns, without the store: the modules and the error.\<close>

record load_result =
  load_mods :: "module list"
  load_err :: "error option"

record world =
  os_Stdin :: "error + string"
  ioutil_ReadFile :: "string \<Rightarrow> error + string"
  os_Open :: "string \<Rightarrow> error option"
  yaml_Unmarshal_map :: "string \<Rightarrow> error + gomap"
  yaml_Unmarshal :: "string \<Rightarrow> error + yaml"
  walkTemplatePath :: "string \<Rightarrow> error + (string \<times> string) list"
  yaml_Marshal :: "gomap \<Rightarrow> error + string"
  renderutil_Render :: "string \<Rightarrow> (string \<times> string) list \<Rightarrow> error + (string \<times> string) list"
  tester_Load :: "string list \<Rightarrow> load_result"
  rego_Query :: "string \<Rightarrow> string \<Rightarrow> yaml \<Rightarrow> engine_outcome"

text \<open>
  The order in which \<open>range\<close> visits \<open>queryList\<close> and \<open>testResults\<close> in
  \<open>evalPolicyOnInput\<close>. Go leaves it unspecified; \<open>range_ok\<close> says that each entry of
  the map is visited once.
\<close>

record goruntime =
  rangeQueryList :: "(string \<times> int) list \<Rightarrow> (string \<times> int) list"
  rangeTestResults :: "(string \<times> bool) list \<Rightarrow> (string \<times> bool) list"

definition range_ok :: "goruntime \<Rightarrow> bool" where
  "range_ok rt \<longleftrightarrow>
     (\<forall>m. mset (rangeQueryList rt m) = mset m) \<and> (\<forall>m. mset (rangeTestResults rt m) = mset m)"

subsection \<open>Library functions on strings and paths\<close>

text \<open>\<open>strings.HasPrefix(s, prefix)\<close>.\<close>

definition strings_HasPrefix :: "string \<Rightarrow> string \<Rightarrow> bool" where
  "strings_HasPrefix s pre \<longleftrightarrow> length pre \<le> length s \<and> take (length pre) s = pre"

text \<open>\<open>strings.TrimSpace\<close>, on the ASCII white space.\<close>

definition isSpace :: "char \<Rightarrow> bool" where
  "isSpace c \<longleftrightarrow> c \<in> set [CHR 0x09, CHR 0x0A, CHR 0x0B, CHR 0x0C, CHR 0x0D, CHR 0x20]"

definition strings_TrimSpace :: "string \<Rightarrow> string" where
  "strings_TrimSpace s = rev (dropWhile isSpace (rev (dropWhile isSpace s)))"

text \<open>
  \<open>strings.Split(s, sep)\<close> for a separator that is not empty: the pieces between the
  occurrences of \<open>sep\<close>, found from the left and not overlapping. \<open>acc\<close> is the piece
  being read, reversed.
\<close>

function split_from :: "string \<Rightarrow> string \<Rightarrow> string \<Rightarrow> string list" where
  "split_from sep acc [] = [rev acc]"
| "split_from sep acc (c # cs) =
     (if strings_HasPrefix (c # cs) sep
      then rev acc # split_from sep [] (drop (length sep - 1) cs)
      else split_from sep (c # acc) cs)"
  by pat_completeness auto
termination
  by (relation "measure (\<lambda>(sep, acc, s). length s)") auto

definition strings_Split :: "string \<Rightarrow> string \<Rightarrow> string list" where
  "strings_Split s sep = split_from sep [] s"

text \<open>\<open>filepath.Ext\<close> and \<open>filepath.Base\<close> with the separator \<open>/\<close>.\<close>

definition isPathSeparator :: "char \<Rightarrow> bool" where
  "isPathSeparator c \<longleftrightarrow> c = CHR ''/''"

definition filepath_Ext :: "string \<Rightarrow> string" where
  "filepath_Ext path =
     (let final_rev = takeWhile (\<lambda>c. \<not> isPathSeparator c) (rev path)
      in if CHR ''.'' \<in> set final_rev
         then CHR ''.'' # rev (takeWhile (\<lambda>c. c \<noteq> CHR ''.'') final_rev)
         else [])"

definition filepath_Base :: "string \<Rightarrow> string" where
  "filepath_Base path =
     (if path = [] then ''.''
      else let stripped = rev (dropWhile isPathSeparator (rev path));
               final = rev (takeWhile (\<lambda>c. \<not> isPathSeparator c) (rev stripped))
           in if final = [] then ''/'' else final)"

subsection \<open>Reading and merging the values files\<close>

definition readFile :: "world \<Rightarrow> string \<Rightarrow> error + string" where
  "readFile w filePath =
     (if strings_TrimSpace filePath = ''-'' then os_Stdin w else ioutil_ReadFile w filePath)"

text \<open>The loop of \<open>mergeValues\<close>, with \<open>base\<close> as its state.\<close>

fun mergeValuesFrom :: "world \<Rightarrow> gomap \<Rightarrow> string list \<Rightarrow> error + gomap" where
  "mergeValuesFrom w base [] = Inr base"
| "mergeValuesFrom w base (filePath # rest) =
     (case readFile w filePath of
        Inl err \<Rightarrow> Inl err
      | Inr bytes \<Rightarrow>
          (case yaml_Unmarshal_map w bytes of
             Inl err \<Rightarrow> Inl (Wrapped (''failed to parse '' @ filePath) err)
           | Inr currentMap \<Rightarrow> mergeValuesFrom w (mergeMaps base currentMap) rest))"

definition mergeValues :: "world \<Rightarrow> string list \<Rightarrow> error + gomap" where
  "mergeValues w valueFiles = mergeValuesFrom w [] valueFiles"

definition validateAndRender :: "world \<Rightarrow> string \<Rightarrow> gomap \<Rightarrow> error + (string \<times> string) list" where
  "validateAndRender w templatePath valuesMap =
     (case walkTemplatePath w templatePath of
        Inl err \<Rightarrow> Inl (Wrapped ''template validation failed'' err)
      | Inr templateFiles \<Rightarrow>
          (case yaml_Marshal w valuesMap of
             Inl err \<Rightarrow> Inl (Wrapped ''couldnt marshal values'' err)
           | Inr values \<Rightarrow> renderutil_Render w values templateFiles))"

section \<open>Normalising the rendered files\<close>

text \<open>
  The inner loop of \<open>UnmarshalYamlMap\<close> over the documents of one file. A document that
  parses to nil is skipped; a document that does not parse ends the whole call, with the
  path in the message.
\<close>

fun unmarshalDocs :: "world \<Rightarrow> string \<Rightarrow> string list \<Rightarrow> yaml list \<Rightarrow> error + yaml list" where
  "unmarshalDocs w fpath [] configDocs = Inr configDocs"
| "unmarshalDocs w fpath (doc # documents) configDocs =
     (case yaml_Unmarshal w doc of
        Inl err \<Rightarrow> Inl (Wrapped (''Unmarshal '' @ fpath @ '' failed'') err)
      | Inr config \<Rightarrow>
          unmarshalDocs w fpath documents
            (if config \<noteq> YNil then configDocs @ [config] else configDocs))"

definition docSeparator :: string where
  "docSeparator = [CHR 0x0A, CHR ''-'', CHR ''-'', CHR ''-'', CHR 0x0A]"

text \<open>
  The body of the outer loop for one file: the new \<open>out\<close>, or the error that ends the
  whole call. A slice that \<open>append\<close> never touched is nil and has length 0, so the two
  tests of the source are tests of the length.
\<close>

definition normalizeFile :: "world \<Rightarrow> gomap \<Rightarrow> string \<times> string \<Rightarrow> error + gomap" where
  "normalizeFile w out entry =
     (case entry of (fpath, template) \<Rightarrow>
        if filepath_Ext fpath = ''.yml'' \<or> filepath_Ext fpath = ''.yaml''
        then (case unmarshalDocs w fpath (strings_Split template docSeparator) [] of
                Inl err \<Rightarrow> Inl err
              | Inr configDocs \<Rightarrow>
                  (let out1 = (if length configDocs > 1
                               then AList.update (filepath_Base fpath) (YSeq configDocs) out
                               else out);
                       out2 = (if length configDocs = 1
                               then AList.update (filepath_Base fpath) (configDocs ! 0) out1
                               else out1)
                   in Inr out2))
        else Inr (AList.update (filepath_Base fpath) (YStr template) out))"

fun normalizeFrom :: "world \<Rightarrow> gomap \<Rightarrow> (string \<times> string) list \<Rightarrow> error + gomap" where
  "normalizeFrom w out [] = Inr out"
| "normalizeFrom w out (entry # rest) =
     (case normalizeFile w out entry of
        Inl err \<Rightarrow> Inl err
      | Inr out' \<Rightarrow> normalizeFrom w out' rest)"

text \<open>\<open>in\<close> is the rendered map in the order \<open>range\<close> visits it.\<close>

definition UnmarshalYamlMap :: "world \<Rightarrow> (string \<times> string) list \<Rightarrow> error + gomap" where
  "UnmarshalYamlMap w inp = normalizeFrom w [] inp"


section \<open>Test discovery\<close>

text \<open>The test of \<open>getQueryList\<close> on a rule, with the arguments in the source's order.\<close>

definition isTestRule :: "rule \<Rightarrow> bool" where
  "isTestRule r \<longleftrightarrow>
     strings_HasPrefix ''expect['' (head_name r) \<or> strings_HasPrefix ''assert['' (head_name r)"

text \<open>\<open>fmt.Sprintf("%s[%s]", rule.Head.Name, rule.Head.Key)\<close>; a nil key prints as \<open><nil>\<close>.\<close>

definition testIdentifier :: "rule \<Rightarrow> string" where
  "testIdentifier r =
     head_name r @ ''['' @ (case head_key r of None \<Rightarrow> ''<nil>'' | Some k \<Rightarrow> k) @ '']''"

text \<open>
  \<open>res[key] += 1\<close>: a key that is absent reads as 0. The count is Go's \<open>int\<close>; it is at
  most the number of rules loaded, far from 64 bits, so it is an \<open>int\<close> here.
\<close>

definition increment :: "string \<Rightarrow> (string \<times> int) list \<Rightarrow> (string \<times> int) list" where
  "increment key res =
     AList.update key ((case map_of res key of None \<Rightarrow> 0 | Some n \<Rightarrow> n) + 1) res"

fun rulesLoop :: "rule list \<Rightarrow> (string \<times> int) list \<Rightarrow> (string \<times> int) list" where
  "rulesLoop [] res = res"
| "rulesLoop (r # rs) res =
     rulesLoop rs (if isTestRule r then increment (testIdentifier r) res else res)"

fun modsLoop :: "module list \<Rightarrow> (string \<times> int) list \<Rightarrow> (string \<times> int) list" where
  "modsLoop [] res = res"
| "modsLoop (m # ms) res = modsLoop ms (rulesLoop (mod_rules m) res)"

text \<open>The error of \<open>tester.Load\<close> is dropped: only the modules are read.\<close>

definition getQueryList :: "world \<Rightarrow> string \<Rightarrow> (string \<times> int) list" where
  "getQueryList w policy = modsLoop (load_mods (tester_Load w [policy])) []"

section \<open>Evaluation and the verdict\<close>

text \<open>
  What the run prints on standard output, one constructor per \<open>Println\<close> (a \<open>Print\<close> of
  the label and the \<open>Println\<close> of the test name are one line).
\<close>

datatype out_line =
    DuplicateErrorLine
  | DuplicateKeyLine string
  | PassLine string
  | FailLine string
  | FailureBanner
  | SuccessBanner

text \<open>
  The variables of \<open>evalPolicyOnInput\<close>, with what it wrote: \<open>stdout\<close>, the traces on
  \<open>writer\<close>, and every query handed to the engine with its input (\<open>engineCalls\<close>).
\<close>

record eval_state =
  testResults :: "(string \<times> bool) list"
  results :: "result list"
  engineCalls :: "(string \<times> yaml) list"
  stdout :: "out_line list"
  writer :: "string list"

definition initial_state :: eval_state where
  "initial_state =
     \<lparr>testResults = [], results = [], engineCalls = [], stdout = [], writer = []\<rparr>"

text \<open>\<open>fmt.Sprintf("data.%s.%s", namespace, querySuffix)\<close>.\<close>

definition queryStringOf :: "string \<Rightarrow> string \<Rightarrow> string" where
  "queryStringOf namespace querySuffix = ''data.'' @ namespace @ ''.'' @ querySuffix"

text \<open>The two nested loops over the result set: some expression has the query as its text.\<close>

definition matched :: "string \<Rightarrow> result list \<Rightarrow> bool" where
  "matched queryString resultSet \<longleftrightarrow>
     list_ex (\<lambda>result. list_ex (\<lambda>expression. expr_text expression = queryString) result) resultSet"

text \<open>
  The body of the first loop of \<open>evalPolicyOnInput\<close> for one entry of \<open>queryList\<close>:
  the error with which the function returns from inside the loop, if it does, and the
  variables after the iteration.
\<close>

definition queryStep ::
  "world \<Rightarrow> string \<Rightarrow> string \<Rightarrow> yaml \<Rightarrow> eval_state \<Rightarrow> string \<times> int \<Rightarrow> error option \<times> eval_state"
where
  "queryStep w policy namespace input st entry =
     (case entry of (querySuffix, querymatches) \<Rightarrow>
        if querymatches > 1
        then (Some DuplicatePolicyFailure,
              st\<lparr>stdout := stdout st @ [DuplicateErrorLine, DuplicateKeyLine querySuffix]\<rparr>)
        else
          (let queryString = queryStringOf namespace querySuffix;
               st1 = st\<lparr>engineCalls := engineCalls st @ [(queryString, input)]\<rparr>
           in case rego_Query w policy queryString input of
                PrepareFailed err \<Rightarrow>
                  (Some (Wrapped ''failed preparing for eval on policies'' err), st1)
              | EvalFailed err \<Rightarrow> (Some (Wrapped ''failed eval on policies'' err), st1)
              | Evaluated resultSet buf \<Rightarrow>
                  (None,
                   st1\<lparr>testResults :=
                          (let tr = AList.update queryString False (testResults st1)
                           in if matched queryString resultSet
                              then AList.update queryString True tr else tr),
                        results :=
                          (if length resultSet > 0 then results st1 @ resultSet
                           else results st1),
                        writer := writer st1 @ buf\<rparr>)))"

text \<open>The loop over the entries of \<open>queryList\<close> in the order given.\<close>

fun queryLoop ::
  "world \<Rightarrow> string \<Rightarrow> string \<Rightarrow> yaml \<Rightarrow> (string \<times> int) list \<Rightarrow> eval_state \<Rightarrow> error option \<times> eval_state"
where
  "queryLoop w policy namespace input [] st = (None, st)"
| "queryLoop w policy namespace input (entry # rest) st =
     (case queryStep w policy namespace input st entry of
        (Some err, st') \<Rightarrow> (Some err, st')
      | (None, st') \<Rightarrow> queryLoop w policy namespace input rest st')"

text \<open>The second loop, over \<open>testResults\<close>: the flag \<open>testFailed\<close> and the lines printed.\<close>

fun reportLoop :: "(string \<times> bool) list \<Rightarrow> bool \<Rightarrow> out_line list \<Rightarrow> bool \<times> out_line list" where
  "reportLoop [] testFailed out = (testFailed, out)"
| "reportLoop ((testname, passed) # rest) testFailed out =
     (if passed then reportLoop rest testFailed (out @ [PassLine testname])
      else reportLoop rest True (out @ [FailLine testname]))"

definition evalPolicyOnInput ::
  "world \<Rightarrow> goruntime \<Rightarrow> string \<Rightarrow> string \<Rightarrow> yaml \<Rightarrow> error option \<times> eval_state"
where
  "evalPolicyOnInput w rt policy namespace input =
     (let queryList = getQueryList w policy
      in case queryLoop w policy namespace input (rangeQueryList rt queryList) initial_state of
           (Some err, st) \<Rightarrow> (Some err, st)
         | (None, st) \<Rightarrow>
             if length queryList \<le> 0 then (Some UnmatchedQuery, st)
             else
               (case reportLoop (rangeTestResults rt (testResults st)) False (stdout st) of
                  (testFailed, out) \<Rightarrow>
                    if testFailed
                    then (Some PolicyFailure, st\<lparr>stdout := out @ [FailureBanner]\<rparr>)
                    else (None, st\<lparr>stdout := out @ [SuccessBanner]\<rparr>)))"

section \<open>The eval command\<close>

datatype sink = Stdout | Buffer | Given

record EvalCommand =
  Writer :: "sink option"
  Template :: string
  Values :: "string list"
  Policy :: string
  Namespace :: string
  Verbose :: bool

definition valuesHashName :: string where
  "valuesHashName = ''values''"

definition setDefaults :: "EvalCommand \<Rightarrow> EvalCommand" where
  "setDefaults s =
     (let s1 = (if Writer s = None then s\<lparr>Writer := Some Stdout\<rparr> else s);
          s2 = (if \<not> Verbose s1 then s1\<lparr>Writer := Some Buffer\<rparr> else s1)
      in if Namespace s2 = [] then s2\<lparr>Namespace := ''main''\<rparr> else s2)"

definition Execute :: "world \<Rightarrow> goruntime \<Rightarrow> EvalCommand \<Rightarrow> error option \<times> eval_state" where
  "Execute w rt s0 =
     (let s = setDefaults s0
      in if Policy s = [] then (Some InvalidPolicyPath, initial_state)
         else if os_Open w (Policy s) \<noteq> None then (Some InvalidPolicyPath, initial_state)
         else
           (case mergeValues w (Values s) of
              Inl err \<Rightarrow> (Some (Wrapped ''failed merging values files'' err), initial_state)
            | Inr valuesConfig \<Rightarrow>
                (case validateAndRender w (Template s) valuesConfig of
                   Inl err \<Rightarrow> (Some (Wrapped ''error while rendering'' err), initial_state)
                 | Inr renderedOutput \<Rightarrow>
                     (case UnmarshalYamlMap w renderedOutput of
                        Inl err \<Rightarrow>
                          (Some (Wrapped ''formatting policy input failed'' err), initial_state)
                      | Inr policyInput \<Rightarrow>
                          evalPolicyOnInput w rt (Policy s) (Namespace s)
                            (YMap (AList.update valuesHashName (YMap valuesConfig) policyInput))))))"


section \<open>Notions the statements use\<close>

text \<open>
  The engine returns a result set for the query of identifier \<open>k\<close> (\<open>answers\<close>), and some
  expression of that result set has the query as its text (\<open>passes\<close>).
\<close>

definition answers :: "world \<Rightarrow> string \<Rightarrow> string \<Rightarrow> yaml \<Rightarrow> string \<Rightarrow> bool" where
  "answers w policy namespace input k =
     (case rego_Query w policy (queryStringOf namespace k) input of
        Evaluated resultSet buf \<Rightarrow> True
      | _ \<Rightarrow> False)"

definition passes :: "world \<Rightarrow> string \<Rightarrow> string \<Rightarrow> yaml \<Rightarrow> string \<Rightarrow> bool" where
  "passes w policy namespace input k =
     (case rego_Query w policy (queryStringOf namespace k) input of
        Evaluated resultSet buf \<Rightarrow> matched (queryStringOf namespace k) resultSet
      | _ \<Rightarrow> False)"

text \<open>An entry of \<open>queryList\<close> on which the loop goes on to the next entry.\<close>

definition proceeds :: "world \<Rightarrow> string \<Rightarrow> string \<Rightarrow> yaml \<Rightarrow> string \<times> int \<Rightarrow> bool" where
  "proceeds w policy namespace input entry \<longleftrightarrow>
     snd entry \<le> 1 \<and> answers w policy namespace input (fst entry)"

text \<open>The entry of \<open>testResults\<close> and the engine call that belong to an entry of \<open>queryList\<close>.\<close>

definition classified :: "world \<Rightarrow> string \<Rightarrow> string \<Rightarrow> yaml \<Rightarrow> string \<times> int \<Rightarrow> string \<times> bool" where
  "classified w policy namespace input entry =
     (queryStringOf namespace (fst entry), passes w policy namespace input (fst entry))"

definition callOf :: "string \<Rightarrow> yaml \<Rightarrow> string \<times> int \<Rightarrow> string \<times> yaml" where
  "callOf namespace input entry = (queryStringOf namespace (fst entry), input)"

text \<open>The line the second loop prints for an entry of \<open>testResults\<close>.\<close>

definition reportLine :: "string \<times> bool \<Rightarrow> out_line" where
  "reportLine entry = (if snd entry then PassLine (fst entry) else FailLine (fst entry))"

definition isReportLine :: "out_line \<Rightarrow> bool" where
  "isReportLine l = (case l of PassLine t \<Rightarrow> True | FailLine t \<Rightarrow> True | _ \<Rightarrow> False)"


text \<open>How often a test rule with identifier \<open>k\<close> occurs among the rules.\<close>

definition occurrences :: "string \<Rightarrow> rule list \<Rightarrow> int" where
  "occurrences k rs = int (length (filter (\<lambda>r. isTestRule r \<and> testIdentifier r = k) rs))"

definition wellCounted :: "(string \<times> int) list \<Rightarrow> bool" where
  "wellCounted res \<longleftrightarrow> (\<forall>k n. map_of res k = Some n \<longrightarrow> 1 \<le> n)"


subsection \<open>The naming convention as the specification words it\<close>

text \<open>
  The specification's grammar for the head name of a test,
  \<^verbatim>\<open>^(expect|assert)(_[A-Za-z]+)*$\<close>: \<open>spec_segments\<close> reads the segments after the
  prefix, each an underscore and at least one letter.
\<close>

definition isLetter :: "char \<Rightarrow> bool" where
  "isLetter c \<longleftrightarrow> c \<in> set ''abcdefghijklmnopqrstuvwxyzABCDEFGHIJKLMNOPQRSTUVWXYZ''"

function spec_segments :: "string \<Rightarrow> bool" where
  "spec_segments [] = True"
| "spec_segments (c # cs) =
     (c = CHR ''_'' \<and> takeWhile isLetter cs \<noteq> [] \<and> spec_segments (dropWhile isLetter cs))"
  by pat_completeness auto
termination
  by (relation "measure length") (auto simp: less_Suc_eq_le length_dropWhile_le)

definition spec_head_matches :: "string \<Rightarrow> bool" where
  "spec_head_matches name \<longleftrightarrow>
     (take 6 name = ''expect'' \<or> take 6 name = ''assert'') \<and> spec_segments (drop 6 name)"

section \<open>A concrete world\<close>

text \<open>
  Two values files (the second read from standard input), a chart that renders to three
  files, and policy programs chosen by their path: one whose two tests pass, one with a
  failing test, one with a duplicated identifier, one with a duplicated identifier and
  a query the engine cannot evaluate, one whose only rule has an underscore name, and
  any other path fails to load.
\<close>

definition demo_rule :: "string \<Rightarrow> string \<Rightarrow> rule" where
  "demo_rule name key = \<lparr>head_name = name, head_key = Some key\<rparr>"

definition demo_load :: "string list \<Rightarrow> load_result" where
  "demo_load args =
     (if args = [''policy.rego'']
      then \<lparr>load_mods = [\<lparr>mod_rules = [demo_rule ''assert'' ''minReplicas'',
                                        demo_rule ''helper'' ''x'',
                                        demo_rule ''expect'' ''service'']\<rparr>],
            load_err = None\<rparr>
      else if args = [''failing.rego'']
      then \<lparr>load_mods = [\<lparr>mod_rules = [demo_rule ''assert'' ''minReplicas'']\<rparr>,
                         \<lparr>mod_rules = [demo_rule ''assert'' ''maxReplicas'']\<rparr>],
            load_err = None\<rparr>
      else if args = [''duplicate.rego'']
      then \<lparr>load_mods = [\<lparr>mod_rules = [demo_rule ''expect'' ''a'',
                                        demo_rule ''assert'' ''b'',
                                        demo_rule ''assert'' ''b'']\<rparr>],
            load_err = None\<rparr>
      else if args = [''mixed.rego'']
      then \<lparr>load_mods = [\<lparr>mod_rules = [demo_rule ''assert'' ''broken'',
                                        demo_rule ''assert'' ''b'',
                                        demo_rule ''assert'' ''b'']\<rparr>],
            load_err = None\<rparr>
      else if args = [''underscore.rego'']
      then \<lparr>load_mods = [\<lparr>mod_rules = [demo_rule ''expect_foo'' ''x'']\<rparr>], load_err = None\<rparr>
      else \<lparr>load_mods = [], load_err = Some (External ''rego_parse_error'')\<rparr>)"

definition demo_rego :: "string \<Rightarrow> string \<Rightarrow> yaml \<Rightarrow> engine_outcome" where
  "demo_rego policy queryString input =
     (if queryString = ''data.main.assert[minReplicas]''
         \<or> queryString = ''data.main.expect[service]''
         \<or> queryString = ''data.main.expect[a]''
      then Evaluated [[\<lparr>expr_text = queryString, expr_value = YBool True\<rparr>]] [''Enter'', ''Exit'']
      else if queryString = ''data.main.assert[broken]''
      then EvalFailed (External ''eval_internal_error'')
      else Evaluated [] [''Enter'', ''Fail''])"

definition demo_multi :: string where
  "demo_multi = ''replicas: 3'' @ docSeparator @ docSeparator @ ''kind: Service''"

definition demo_world :: world where
  "demo_world =
     \<lparr>os_Stdin = Inr ''a: {y: 2}'',
      ioutil_ReadFile =
        (\<lambda>p. if p = ''base.yaml'' then Inr ''a: {x: 1}'' else Inl (External ''no such file'')),
      os_Open = (\<lambda>p. if p = ''missing.rego'' then Some (External ''no such file'') else None),
      yaml_Unmarshal_map =
        (\<lambda>t. if t = ''a: {x: 1}'' then Inr [(''a'', YMap [(''x'', YInt 1)])]
             else if t = ''a: {y: 2}'' then Inr [(''a'', YMap [(''y'', YInt 2)])]
             else Inl (External ''yaml: cannot unmarshal'')),
      yaml_Unmarshal =
        (\<lambda>t. if t = ''replicas: 3'' then Inr (YMap [(''replicas'', YInt 3)])
             else if t = ''kind: Service'' then Inr (YMap [(''kind'', YStr ''Service'')])
             else if t = [] then Inr YNil
             else Inl (External ''yaml: cannot unmarshal'')),
      walkTemplatePath =
        (\<lambda>p. if p = ''chart'' then Inr [(''chart/deploy.yaml'', ''replicas: {{ .Values.a.x }}'')]
             else Inl (External ''no such directory'')),
      yaml_Marshal = (\<lambda>m. Inr ''a: {x: 1, y: 2}''),
      renderutil_Render =
        (\<lambda>values templates.
           Inr [(''chart/deploy.yaml'', ''replicas: 3''),
                (''chart/multi.yml'', demo_multi),
                (''chart/NOTES.txt'', ''replicas: 3'')]),
      tester_Load = demo_load,
      rego_Query = demo_rego\<rparr>"

definition demo_input :: yaml where
  "demo_input = YMap [(''deploy.yaml'', YMap [(''replicas'', YInt 3)])]"

text \<open>The document the run of the concrete command hands to the engine.\<close>

definition demo_policy_input :: yaml where
  "demo_policy_input =
     YMap [(''deploy.yaml'', YMap [(''replicas'', YInt 3)]),
           (''multi.yml'', YSeq [YMap [(''replicas'', YInt 3)], YMap [(''kind'', YStr ''Service'')]]),
           (''NOTES.txt'', YStr ''replicas: 3''),
           (''values'', YMap [(''a'', YMap [(''x'', YInt 1), (''y'', YInt 2)])])]"

definition rt_forward :: goruntime where
  "rt_forward = \<lparr>rangeQueryList = (\<lambda>m. m), rangeTestResults = (\<lambda>m. m)\<rparr>"

definition rt_backward :: goruntime where
  "rt_backward = \<lparr>rangeQueryList = rev, rangeTestResults = (\<lambda>m. m)\<rparr>"

definition demo_command :: EvalCommand where
  "demo_command =
     \<lparr>Writer = None, Template = ''chart'', Values = [''base.yaml'', '' - ''],
      Policy = ''policy.rego'', Namespace = [], Verbose = False\<rparr>"


section \<open>Properties of the merge\<close>

lemma update_fresh: "k \<notin> fst ` set al \<Longrightarrow> AList.update k v al = al @ [(k, v)]"
  by (induction al) auto







section \<open>Properties of test discovery\<close>

lemma increment_distinct: "distinct (map fst res) \<Longrightarrow> distinct (map fst (increment key res))"
  by (simp add: increment_def distinct_update)

lemma increment_lookup:
  "map_of (increment key res) k =
     (if k = key then Some ((case map_of res key of None \<Rightarrow> 0 | Some n \<Rightarrow> n) + 1) else map_of res k)"
  by (simp add: increment_def update_conv')

lemma rulesLoop_distinct: "distinct (map fst res) \<Longrightarrow> distinct (map fst (rulesLoop rs res))"
  by (induction rs arbitrary: res) (simp_all add: increment_distinct)

lemma modsLoop_distinct: "distinct (map fst res) \<Longrightarrow> distinct (map fst (modsLoop ms res))"
  by (induction ms arbitrary: res) (simp_all add: rulesLoop_distinct)

lemma getQueryList_distinct: "distinct (map fst (getQueryList w policy))"
  by (simp add: getQueryList_def modsLoop_distinct)

lemma increment_wellCounted: "wellCounted res \<Longrightarrow> wellCounted (increment key res)"
  unfolding wellCounted_def increment_lookup
  by (auto split: option.splits) fastforce

lemma rulesLoop_wellCounted: "wellCounted res \<Longrightarrow> wellCounted (rulesLoop rs res)"
  by (induction rs arbitrary: res) (simp_all add: increment_wellCounted)

lemma lookup_base:
  "wellCounted res \<Longrightarrow>
   map_of res k = (let n = (case map_of res k of None \<Rightarrow> 0 | Some n \<Rightarrow> n) + 0
      in if n = 0 then None else Some n)"
  unfolding wellCounted_def by (cases "map_of res k") fastforce+

lemma rulesLoop_lookup:
  "wellCounted res \<Longrightarrow>
   map_of (rulesLoop rs res) k =
     (let n = (case map_of res k of None \<Rightarrow> 0 | Some n \<Rightarrow> n) + occurrences k rs
      in if n = 0 then None else Some n)"
proof (induction rs arbitrary: res)
  case Nil
  then show ?case using lookup_base[of res k] by (simp add: occurrences_def)
next
  case (Cons r rs)
  have wc: "wellCounted (if isTestRule r then increment (testIdentifier r) res else res)"
    using Cons.prems by (simp add: increment_wellCounted)
  show ?case
    using Cons.IH[OF wc] by (auto simp: occurrences_def increment_lookup Let_def split: option.splits)
qed

lemma modsLoop_lookup:
  "wellCounted res \<Longrightarrow>
   map_of (modsLoop ms res) k =
     (let n = (case map_of res k of None \<Rightarrow> 0 | Some n \<Rightarrow> n) + occurrences k (concat (map mod_rules ms))
      in if n = 0 then None else Some n)"
proof (induction ms arbitrary: res)
  case Nil
  then show ?case using lookup_base[of res k] by (simp add: occurrences_def)
next
  case (Cons m ms)
  have wc: "wellCounted (rulesLoop (mod_rules m) res)"
    using Cons.prems by (rule rulesLoop_wellCounted)
  have occ: "occurrences k (mod_rules m @ concat (map mod_rules ms))
     = occurrences k (mod_rules m) + occurrences k (concat (map mod_rules ms))"
    by (simp add: occurrences_def)
  have nn: "0 \<le> occurrences k (mod_rules m)" "0 \<le> occurrences k (concat (map mod_rules ms))"
    by (simp_all add: occurrences_def)
  show ?case
    using Cons.IH[OF wc, of ] rulesLoop_lookup[OF Cons.prems, of "mod_rules m" k] occ nn
    by (auto simp: Let_def split: option.splits if_splits)
qed

lemma getQueryList_lookup:
  "map_of (getQueryList w policy) k =
     (let n = occurrences k (concat (map mod_rules (load_mods (tester_Load w [policy]))))
      in if n = 0 then None else Some n)"
  unfolding getQueryList_def
  using modsLoop_lookup[of "[]" "load_mods (tester_Load w [policy])" k]
  by (simp add: wellCounted_def)

lemma isTestRule_iff:
  "isTestRule r \<longleftrightarrow> (\<exists>rest. head_name r @ rest = ''expect['' \<or> head_name r @ rest = ''assert['')"
proof
  assume "isTestRule r"
  then have "take (length (head_name r)) ''expect['' = head_name r \<or> take (length (head_name r)) ''assert['' = head_name r"
    by (auto simp: isTestRule_def strings_HasPrefix_def)
  then show "\<exists>rest. head_name r @ rest = ''expect['' \<or> head_name r @ rest = ''assert[''"
    by (metis append_take_drop_id)
next
  assume "\<exists>rest. head_name r @ rest = ''expect['' \<or> head_name r @ rest = ''assert[''"
  then obtain rest where "head_name r @ rest = ''expect['' \<or> head_name r @ rest = ''assert[''" by blast
  then show "isTestRule r"
    unfolding isTestRule_def strings_HasPrefix_def
    by (metis append_eq_conv_conj length_append le_add1)
qed

section \<open>Properties of the query loop\<close>

lemma queryStringOf_inj: "queryStringOf ns k = queryStringOf ns k' \<longleftrightarrow> k = k'"
  by (simp add: queryStringOf_def)

lemma queryStep_proceeds:
  assumes "proceeds w policy ns input (k, n)"
  shows "fst (queryStep w policy ns input st (k, n)) = None"
    and "testResults (snd (queryStep w policy ns input st (k, n)))
           = AList.update (queryStringOf ns k) (passes w policy ns input k) (testResults st)"
    and "engineCalls (snd (queryStep w policy ns input st (k, n)))
           = engineCalls st @ [(queryStringOf ns k, input)]"
    and "stdout (snd (queryStep w policy ns input st (k, n))) = stdout st"
  using assms
  by (auto simp: proceeds_def answers_def passes_def queryStep_def Let_def
      split: engine_outcome.splits)

lemma queryStep_stops:
  assumes "\<not> proceeds w policy ns input (k, n)"
  shows "fst (queryStep w policy ns input st (k, n)) \<noteq> None"
  using assms
  by (auto simp: proceeds_def answers_def queryStep_def Let_def split: engine_outcome.splits)

lemma queryStep_duplicate:
  "1 < n \<Longrightarrow> queryStep w policy ns input st (k, n)
     = (Some DuplicatePolicyFailure,
        st\<lparr>stdout := stdout st @ [DuplicateErrorLine, DuplicateKeyLine k]\<rparr>)"
  by (simp add: queryStep_def)

lemma queryStep_error_kind:
  "fst (queryStep w policy ns input st (k, n)) = Some err \<Longrightarrow>
     (1 < n \<and> err = DuplicatePolicyFailure) \<or>
     (n \<le> 1 \<and> (\<exists>e. (rego_Query w policy (queryStringOf ns k) input = PrepareFailed e
                    \<and> err = Wrapped ''failed preparing for eval on policies'' e)
                \<or> (rego_Query w policy (queryStringOf ns k) input = EvalFailed e
                    \<and> err = Wrapped ''failed eval on policies'' e)))"
  by (auto simp: queryStep_def Let_def split: engine_outcome.splits if_splits)

lemma queryStep_calls:
  "engineCalls (snd (queryStep w policy ns input st (k, n)))
     = engineCalls st @ (if 1 < n then [] else [(queryStringOf ns k, input)])"
  by (auto simp: queryStep_def Let_def split: engine_outcome.splits)

lemma queryLoop_stop_here:
  "\<not> proceeds w policy ns input e \<Longrightarrow>
   queryLoop w policy ns input (e # rest) st = queryStep w policy ns input st e"
  using queryStep_stops[of w policy ns input "fst e" "snd e" st]
  by (cases "queryStep w policy ns input st e") (auto split: option.splits)

lemma queryLoop_proceed_here:
  "proceeds w policy ns input e \<Longrightarrow>
   queryLoop w policy ns input (e # rest) st
     = queryLoop w policy ns input rest (snd (queryStep w policy ns input st e))"
  using queryStep_proceeds(1)[of w policy ns input "fst e" "snd e" st]
  by (cases "queryStep w policy ns input st e") (auto split: option.splits)

lemma queryLoop_all_proceed:
  assumes "list_all (proceeds w policy ns input) xs"
  shows "fst (queryLoop w policy ns input xs st) = None
       \<and> testResults (snd (queryLoop w policy ns input xs st))
           = fold (\<lambda>e tr. AList.update (fst (classified w policy ns input e))
                            (snd (classified w policy ns input e)) tr) xs (testResults st)
       \<and> engineCalls (snd (queryLoop w policy ns input xs st))
           = engineCalls st @ map (callOf ns input) xs
       \<and> stdout (snd (queryLoop w policy ns input xs st)) = stdout st"
  using assms
proof (induction xs arbitrary: st)
  case Nil
  then show ?case by simp
next
  case (Cons e xs)
  obtain k n where e: "e = (k, n)" by (cases e)
  from Cons.prems have p: "proceeds w policy ns input (k, n)" and rest: "list_all (proceeds w policy ns input) xs"
    by (simp_all add: e)
  show ?case
    unfolding e queryLoop_proceed_here[OF p]
    using Cons.IH[OF rest, of "snd (queryStep w policy ns input st (k, n))"] queryStep_proceeds[OF p, of st]
    by (simp add: classified_def callOf_def)
qed

lemma queryLoop_append:
  "list_all (proceeds w policy ns input) pre \<Longrightarrow>
   queryLoop w policy ns input (pre @ rest) st
     = queryLoop w policy ns input rest (snd (queryLoop w policy ns input pre st))"
proof (induction pre arbitrary: st)
  case Nil
  then show ?case by simp
next
  case (Cons e pre)
  then have p: "proceeds w policy ns input e" and rest: "list_all (proceeds w policy ns input) pre"
    by simp_all
  show ?case using Cons.IH[OF rest] by (simp only: append_Cons queryLoop_proceed_here[OF p])
qed

lemma fold_update_fresh:
  "distinct (map f xs) \<Longrightarrow> f ` set xs \<inter> fst ` set tr = {} \<Longrightarrow>
   fold (\<lambda>e tr. AList.update (f e) (g e) tr) xs tr = tr @ map (\<lambda>e. (f e, g e)) xs"
proof (induction xs arbitrary: tr)
  case Nil
  then show ?case by simp
next
  case (Cons e xs)
  have fresh: "f e \<notin> fst ` set tr" using Cons.prems by auto
  have d: "distinct (map f xs)" using Cons.prems by simp
  have disj: "f ` set xs \<inter> fst ` set (tr @ [(f e, g e)]) = {}" using Cons.prems by auto
  show ?case using Cons.IH[OF d disj] by (simp add: update_fresh[OF fresh])
qed

lemma distinct_queryStrings:
  "distinct (map fst xs) \<Longrightarrow> distinct (map (\<lambda>e. fst (classified w policy ns input e)) xs)"
  by (simp add: classified_def distinct_map inj_on_def queryStringOf_inj comp_def)

lemma testResults_all_proceed:
  assumes "list_all (proceeds w policy ns input) xs" and "distinct (map fst xs)"
  shows "testResults (snd (queryLoop w policy ns input xs initial_state))
           = map (classified w policy ns input) xs"
  using queryLoop_all_proceed[OF assms(1), of initial_state]
    fold_update_fresh[where tr="[]" and f="\<lambda>e. fst (classified w policy ns input e)"
      and g="\<lambda>e. snd (classified w policy ns input e)" and xs=xs]
    distinct_queryStrings[OF assms(2), of w policy ns input]
  by (simp add: initial_state_def)

lemma reportLoop_eq:
  "reportLoop ys testFailed out = (testFailed \<or> \<not> list_all snd ys, out @ map reportLine ys)"
  by (induction ys testFailed out rule: reportLoop.induct) (simp_all add: reportLine_def)

section \<open>Properties of the run\<close>

lemma range_queries:
  assumes "range_ok rt"
  shows "mset (rangeQueryList rt q) = mset q"
    and "set (rangeQueryList rt q) = set q"
    and "list_all P (rangeQueryList rt q) = list_all P q"
    and "rangeQueryList rt q = [] \<longleftrightarrow> q = []"
    and "distinct (map fst (rangeQueryList rt q)) = distinct (map fst q)"
proof -
  show m: "mset (rangeQueryList rt q) = mset q" using assms by (simp add: range_ok_def)
  then show s: "set (rangeQueryList rt q) = set q" by (rule mset_eq_setD)
  show "list_all P (rangeQueryList rt q) = list_all P q" by (simp add: list_all_iff s)
  show "rangeQueryList rt q = [] \<longleftrightarrow> q = []" using s by (metis set_empty)
  have "mset (map fst (rangeQueryList rt q)) = mset (map fst q)" using m by (metis mset_map)
  then show "distinct (map fst (rangeQueryList rt q)) = distinct (map fst q)"
    by (metis mset_eq_imp_distinct_iff)
qed

lemma range_results:
  assumes "range_ok rt"
  shows "mset (rangeTestResults rt tr) = mset tr"
    and "set (rangeTestResults rt tr) = set tr"
    and "list_all P (rangeTestResults rt tr) = list_all P tr"
proof -
  show m: "mset (rangeTestResults rt tr) = mset tr" using assms by (simp add: range_ok_def)
  then show s: "set (rangeTestResults rt tr) = set tr" by (rule mset_eq_setD)
  show "list_all P (rangeTestResults rt tr) = list_all P tr" by (simp add: list_all_iff s)
qed

lemma first_stop:
  assumes "\<not> list_all (proceeds w policy ns input) ys"
  shows "queryLoop w policy ns input ys st
           = queryStep w policy ns input
               (snd (queryLoop w policy ns input (takeWhile (proceeds w policy ns input) ys) st))
               (hd (dropWhile (proceeds w policy ns input) ys))"
    and "\<not> proceeds w policy ns input (hd (dropWhile (proceeds w policy ns input) ys))"
    and "hd (dropWhile (proceeds w policy ns input) ys) \<in> set ys"
proof -
  let ?P = "proceeds w policy ns input"
  from assms have ne: "dropWhile ?P ys \<noteq> []" by (simp add: list_all_iff)
  then obtain e post where dw: "dropWhile ?P ys = e # post" by (cases "dropWhile ?P ys") auto
  then show stop: "\<not> ?P (hd (dropWhile ?P ys))" using hd_dropWhile[OF ne] by simp
  then have stop_e: "\<not> ?P e" using dw by simp
  have split: "ys = takeWhile ?P ys @ e # post" using dw by (metis takeWhile_dropWhile_id)
  have pre: "list_all ?P (takeWhile ?P ys)" by (simp add: list_all_iff) (meson set_takeWhileD)
  have "queryLoop w policy ns input (takeWhile ?P ys @ e # post) st
          = queryLoop w policy ns input (e # post) (snd (queryLoop w policy ns input (takeWhile ?P ys) st))"
    by (rule queryLoop_append[OF pre])
  also have "\<dots> = queryStep w policy ns input (snd (queryLoop w policy ns input (takeWhile ?P ys) st)) e"
    by (rule queryLoop_stop_here[OF stop_e])
  finally show "queryLoop w policy ns input ys st
           = queryStep w policy ns input
               (snd (queryLoop w policy ns input (takeWhile ?P ys) st))
               (hd (dropWhile ?P ys))"
    using split dw by simp
  show "hd (dropWhile ?P ys) \<in> set ys" using dw split by (metis in_set_conv_decomp list.sel(1))
qed

lemma queryLoop_fails_iff:
  "fst (queryLoop w policy ns input ys st) = None \<longleftrightarrow> list_all (proceeds w policy ns input) ys"
proof (cases "list_all (proceeds w policy ns input) ys")
  case True
  then show ?thesis using queryLoop_all_proceed[OF True, of st] by simp
next
  case False
  obtain k n where e: "hd (dropWhile (proceeds w policy ns input) ys) = (k, n)"
    by (cases "hd (dropWhile (proceeds w policy ns input) ys)")
  show ?thesis using False first_stop(1)[OF False, of st] first_stop(2)[OF False] queryStep_stops[of w policy ns input k n] e
    by simp
qed

lemma evalPolicyOnInput_stop:
  assumes "\<not> list_all (proceeds w policy ns input) (rangeQueryList rt (getQueryList w policy))"
  shows "evalPolicyOnInput w rt policy ns input
           = queryLoop w policy ns input (rangeQueryList rt (getQueryList w policy)) initial_state"
proof -
  have "fst (queryLoop w policy ns input (rangeQueryList rt (getQueryList w policy)) initial_state) \<noteq> None"
    using assms by (simp add: queryLoop_fails_iff)
  then show ?thesis
    by (cases "queryLoop w policy ns input (rangeQueryList rt (getQueryList w policy)) initial_state")
       (auto simp: evalPolicyOnInput_def Let_def split: option.splits)
qed

lemma evalPolicyOnInput_empty:
  assumes "range_ok rt" and "getQueryList w policy = []"
  shows "evalPolicyOnInput w rt policy ns input = (Some UnmatchedQuery, initial_state)"
  using assms range_queries(4)[OF assms(1), of "[]"]
  by (simp add: evalPolicyOnInput_def)

lemma evalPolicyOnInput_all_proceed:
  assumes ok: "range_ok rt"
    and all: "list_all (proceeds w policy ns input) (getQueryList w policy)"
    and ne: "getQueryList w policy \<noteq> []"
    and d: "distinct (map fst (getQueryList w policy))"
  shows "evalPolicyOnInput w rt policy ns input
     = (if list_all (\<lambda>e. passes w policy ns input (fst e)) (getQueryList w policy)
        then None else Some PolicyFailure,
        (snd (queryLoop w policy ns input (rangeQueryList rt (getQueryList w policy)) initial_state))
          \<lparr>stdout := map reportLine (rangeTestResults rt
                 (map (classified w policy ns input) (rangeQueryList rt (getQueryList w policy))))
              @ [if list_all (\<lambda>e. passes w policy ns input (fst e)) (getQueryList w policy)
                 then SuccessBanner else FailureBanner]\<rparr>)"
proof -
  let ?xs = "rangeQueryList rt (getQueryList w policy)"
  let ?R = "queryLoop w policy ns input ?xs initial_state"
  have all': "list_all (proceeds w policy ns input) ?xs" using all by (simp add: range_queries(3)[OF ok])
  have d': "distinct (map fst ?xs)" using d by (simp add: range_queries(5)[OF ok])
  have f: "fst ?R = None" and out: "stdout (snd ?R) = []"
    using queryLoop_all_proceed[OF all', of initial_state] by (simp_all add: initial_state_def)
  have tr: "testResults (snd ?R) = map (classified w policy ns input) ?xs"
    by (rule testResults_all_proceed[OF all' d'])
  have "list_all snd (rangeTestResults rt (map (classified w policy ns input) ?xs))
      = list_all snd (map (classified w policy ns input) ?xs)"
    by (rule range_results(3)[OF ok])
  also have "\<dots> = list_all (\<lambda>e. passes w policy ns input (fst e)) ?xs"
    by (simp add: list_all_iff classified_def)
  also have "\<dots> = list_all (\<lambda>e. passes w policy ns input (fst e)) (getQueryList w policy)"
    by (rule range_queries(3)[OF ok])
  finally have verdict: "list_all snd (rangeTestResults rt (map (classified w policy ns input) ?xs))
      = list_all (\<lambda>e. passes w policy ns input (fst e)) (getQueryList w policy)" .
  obtain st where R: "?R = (None, st)" using f by (cases ?R) auto
  show ?thesis
    using ne tr out verdict unfolding evalPolicyOnInput_def Let_def R
    by (simp add: reportLoop_eq)
qed


section \<open>Evaluating the concrete world\<close>

lemmas demo_defs =
  demo_world_def demo_load_def demo_rego_def demo_rule_def demo_input_def demo_multi_def
  rt_forward_def rt_backward_def demo_command_def

lemmas discovery_defs =
  getQueryList_def isTestRule_def strings_HasPrefix_def testIdentifier_def increment_def

lemma range_ok_forward: "range_ok rt_forward"
  by (simp add: range_ok_def rt_forward_def)

lemma range_ok_backward: "range_ok rt_backward"
  by (simp add: range_ok_def rt_backward_def)

section \<open>Further properties of the run and of the normaliser\<close>

lemma distinct_count_list: "distinct ys \<Longrightarrow> y \<in> set ys \<Longrightarrow> count_list ys y = 1"
  by (induction ys) auto

lemma proceeds_all:
  "list_all (proceeds w policy ns input) q
     \<longleftrightarrow> list_all (\<lambda>e. snd e \<le> 1) q \<and> list_all (\<lambda>e. answers w policy ns input (fst e)) q"
  by (auto simp: list_all_iff proceeds_def)

lemma run_all_proceed:
  assumes ok: "range_ok rt"
    and nodup: "list_all (\<lambda>e. snd e \<le> 1) (getQueryList w policy)"
    and ans: "list_all (\<lambda>e. answers w policy ns input (fst e)) (getQueryList w policy)"
    and ne: "getQueryList w policy \<noteq> []"
  shows "fst (evalPolicyOnInput w rt policy ns input)
           = (if list_all (\<lambda>e. passes w policy ns input (fst e)) (getQueryList w policy)
              then None else Some PolicyFailure)"
    and "testResults (snd (evalPolicyOnInput w rt policy ns input))
           = map (classified w policy ns input) (rangeQueryList rt (getQueryList w policy))"
    and "engineCalls (snd (evalPolicyOnInput w rt policy ns input))
           = map (callOf ns input) (rangeQueryList rt (getQueryList w policy))"
    and "stdout (snd (evalPolicyOnInput w rt policy ns input))
           = map reportLine (rangeTestResults rt
               (map (classified w policy ns input) (rangeQueryList rt (getQueryList w policy))))
             @ [if list_all (\<lambda>e. passes w policy ns input (fst e)) (getQueryList w policy)
                then SuccessBanner else FailureBanner]"
proof -
  let ?xs = "rangeQueryList rt (getQueryList w policy)"
  have all: "list_all (proceeds w policy ns input) (getQueryList w policy)"
    using nodup ans by (simp add: proceeds_all)
  have all': "list_all (proceeds w policy ns input) ?xs"
    using all by (simp add: range_queries(3)[OF ok])
  have d': "distinct (map fst ?xs)"
    by (simp add: range_queries(5)[OF ok] getQueryList_distinct)
  note R = evalPolicyOnInput_all_proceed[OF ok all ne getQueryList_distinct]
  note L = queryLoop_all_proceed[OF all', of initial_state]
  show "fst (evalPolicyOnInput w rt policy ns input)
           = (if list_all (\<lambda>e. passes w policy ns input (fst e)) (getQueryList w policy)
              then None else Some PolicyFailure)"
    unfolding R by simp
  show "testResults (snd (evalPolicyOnInput w rt policy ns input))
           = map (classified w policy ns input) ?xs"
    unfolding R using testResults_all_proceed[OF all' d'] by simp
  show "engineCalls (snd (evalPolicyOnInput w rt policy ns input)) = map (callOf ns input) ?xs"
    unfolding R using L by (simp add: initial_state_def)
  show "stdout (snd (evalPolicyOnInput w rt policy ns input))
           = map reportLine (rangeTestResults rt (map (classified w policy ns input) ?xs))
             @ [if list_all (\<lambda>e. passes w policy ns input (fst e)) (getQueryList w policy)
                then SuccessBanner else FailureBanner]"
    unfolding R by simp
qed

lemma demo_world_engine:
  "rego_Query demo_world = demo_rego" and "tester_Load demo_world = demo_load"
  by (simp_all add: demo_world_def)

lemmas eval_simps =
  queryStep_def queryStringOf_def matched_def initial_state_def Let_def
  demo_world_engine demo_rego_def

lemma run_stops:
  assumes ok: "range_ok rt"
    and stop: "\<not> list_all (proceeds w policy ns input) (getQueryList w policy)"
  shows "\<exists>e st. e \<in> set (getQueryList w policy) \<and> \<not> proceeds w policy ns input e
           \<and> evalPolicyOnInput w rt policy ns input = queryStep w policy ns input st e"
proof -
  let ?xs = "rangeQueryList rt (getQueryList w policy)"
  have stop': "\<not> list_all (proceeds w policy ns input) ?xs"
    using stop by (simp add: range_queries(3)[OF ok])
  have "hd (dropWhile (proceeds w policy ns input) ?xs) \<in> set (getQueryList w policy)"
    using first_stop(3)[OF stop'] by (simp add: range_queries(2)[OF ok])
  then show ?thesis
    using first_stop(1)[OF stop', of initial_state] first_stop(2)[OF stop']
      evalPolicyOnInput_stop[OF stop']
    by metis
qed

lemma queryStep_not_verdict:
  assumes "\<not> proceeds w policy ns input e"
  shows "fst (queryStep w policy ns input st e) \<noteq> None"
    and "fst (queryStep w policy ns input st e) \<noteq> Some PolicyFailure"
    and "fst (queryStep w policy ns input st e) \<noteq> Some UnmatchedQuery"
    and "answers w policy ns input (fst e) \<Longrightarrow>
           fst (queryStep w policy ns input st e) = Some DuplicatePolicyFailure"
proof -
  obtain k n where e: "e = (k, n)" by (cases e)
  show "fst (queryStep w policy ns input st e) \<noteq> None"
    using queryStep_stops[of w policy ns input k n st] assms e by simp
  show "fst (queryStep w policy ns input st e) \<noteq> Some PolicyFailure"
    using queryStep_error_kind[of w policy ns input st k n PolicyFailure] e by auto
  show "fst (queryStep w policy ns input st e) \<noteq> Some UnmatchedQuery"
    using queryStep_error_kind[of w policy ns input st k n UnmatchedQuery] e by auto
  show "fst (queryStep w policy ns input st e) = Some DuplicatePolicyFailure"
    if "answers w policy ns input (fst e)"
    using that assms e by (simp add: proceeds_def queryStep_duplicate)
qed

lemma verdict_cases:
  assumes ok: "range_ok rt"
  shows "fst (evalPolicyOnInput w rt policy ns input) = None \<longleftrightarrow>
           getQueryList w policy \<noteq> [] \<and> list_all (proceeds w policy ns input) (getQueryList w policy)
           \<and> list_all (\<lambda>e. passes w policy ns input (fst e)) (getQueryList w policy)"
    and "fst (evalPolicyOnInput w rt policy ns input) = Some PolicyFailure \<longleftrightarrow>
           getQueryList w policy \<noteq> [] \<and> list_all (proceeds w policy ns input) (getQueryList w policy)
           \<and> \<not> list_all (\<lambda>e. passes w policy ns input (fst e)) (getQueryList w policy)"
    and "fst (evalPolicyOnInput w rt policy ns input) = Some UnmatchedQuery \<longleftrightarrow>
           getQueryList w policy = []"
    and "list_all (\<lambda>e. answers w policy ns input (fst e)) (getQueryList w policy) \<Longrightarrow>
         fst (evalPolicyOnInput w rt policy ns input)
           = (if \<not> list_all (\<lambda>e. snd e \<le> 1) (getQueryList w policy) then Some DuplicatePolicyFailure
              else if getQueryList w policy = [] then Some UnmatchedQuery
              else if list_all (\<lambda>e. passes w policy ns input (fst e)) (getQueryList w policy) then None
              else Some PolicyFailure)"
proof -
  let ?Q = "getQueryList w policy"
  let ?R = "evalPolicyOnInput w rt policy ns input"
  consider (empty) "?Q = []"
    | (run) "?Q \<noteq> []" "list_all (proceeds w policy ns input) ?Q"
    | (stop) "\<not> list_all (proceeds w policy ns input) ?Q"
    by blast
  then have "(fst ?R = None \<longleftrightarrow>
           ?Q \<noteq> [] \<and> list_all (proceeds w policy ns input) ?Q
           \<and> list_all (\<lambda>e. passes w policy ns input (fst e)) ?Q)
      \<and> (fst ?R = Some PolicyFailure \<longleftrightarrow>
           ?Q \<noteq> [] \<and> list_all (proceeds w policy ns input) ?Q
           \<and> \<not> list_all (\<lambda>e. passes w policy ns input (fst e)) ?Q)
      \<and> (fst ?R = Some UnmatchedQuery \<longleftrightarrow> ?Q = [])
      \<and> (list_all (\<lambda>e. answers w policy ns input (fst e)) ?Q \<longrightarrow>
         fst ?R
           = (if \<not> list_all (\<lambda>e. snd e \<le> 1) ?Q then Some DuplicatePolicyFailure
              else if ?Q = [] then Some UnmatchedQuery
              else if list_all (\<lambda>e. passes w policy ns input (fst e)) ?Q then None
              else Some PolicyFailure))"
  proof cases
    case empty
    then show ?thesis using evalPolicyOnInput_empty[OF ok empty, of ns input] by simp
  next
    case run
    have "list_all (\<lambda>e. snd e \<le> 1) ?Q" using run(2) by (simp add: proceeds_all)
    then show ?thesis
      using run evalPolicyOnInput_all_proceed[OF ok run(2) run(1) getQueryList_distinct]
      by simp
  next
    case stop
    then have ne: "?Q \<noteq> []" by auto
    from run_stops[OF ok stop] obtain e st
      where e: "e \<in> set ?Q" "\<not> proceeds w policy ns input e"
        and R: "?R = queryStep w policy ns input st e"
      by blast
    note nv = queryStep_not_verdict[OF e(2), of st]
    have dup: "\<not> list_all (\<lambda>e. snd e \<le> 1) ?Q"
      if "list_all (\<lambda>e. answers w policy ns input (fst e)) ?Q"
      using that stop by (simp add: proceeds_all)
    have "fst ?R = Some DuplicatePolicyFailure"
      if "list_all (\<lambda>e. answers w policy ns input (fst e)) ?Q"
      using that e(1) nv(4) R by (simp add: list_all_iff)
    then show ?thesis using stop ne nv(1,2,3) R dup by auto
  qed
  then show "fst ?R = None \<longleftrightarrow>
           ?Q \<noteq> [] \<and> list_all (proceeds w policy ns input) ?Q
           \<and> list_all (\<lambda>e. passes w policy ns input (fst e)) ?Q"
    and "fst ?R = Some PolicyFailure \<longleftrightarrow>
           ?Q \<noteq> [] \<and> list_all (proceeds w policy ns input) ?Q
           \<and> \<not> list_all (\<lambda>e. passes w policy ns input (fst e)) ?Q"
    and "fst ?R = Some UnmatchedQuery \<longleftrightarrow> ?Q = []"
    and "list_all (\<lambda>e. answers w policy ns input (fst e)) ?Q \<Longrightarrow>
         fst ?R
           = (if \<not> list_all (\<lambda>e. snd e \<le> 1) ?Q then Some DuplicatePolicyFailure
              else if ?Q = [] then Some UnmatchedQuery
              else if list_all (\<lambda>e. passes w policy ns input (fst e)) ?Q then None
              else Some PolicyFailure)"
    by blast+
qed



lemma queryLoop_calls_input:
  "c \<in> set (engineCalls (snd (queryLoop w policy ns input xs st))) \<Longrightarrow>
   c \<in> set (engineCalls st) \<or> snd c = input"
proof (induction xs arbitrary: st)
  case Nil
  then show ?case by simp
next
  case (Cons e xs)
  obtain k n where e: "e = (k, n)" by (cases e)
  obtain err st' where step: "queryStep w policy ns input st (k, n) = (err, st')"
    by (cases "queryStep w policy ns input st (k, n)")
  have calls: "engineCalls st' = engineCalls st @ (if 1 < n then [] else [(queryStringOf ns k, input)])"
    using queryStep_calls[of w policy ns input st k n] step by simp
  show ?case
  proof (cases err)
    case None
    then have "c \<in> set (engineCalls (snd (queryLoop w policy ns input xs st')))"
      using Cons.prems e step by simp
    from Cons.IH[OF this] show ?thesis using calls by (auto split: if_splits)
  next
    case (Some a)
    then have "c \<in> set (engineCalls st')" using Cons.prems e step by simp
    then show ?thesis using calls by (auto split: if_splits)
  qed
qed

lemma evalPolicyOnInput_calls:
  "engineCalls (snd (evalPolicyOnInput w rt policy ns input))
     = engineCalls (snd (queryLoop w policy ns input (rangeQueryList rt (getQueryList w policy))
         initial_state))"
  by (simp add: evalPolicyOnInput_def Let_def split: prod.splits option.splits)

lemma evalPolicyOnInput_calls_input:
  "(q, inp) \<in> set (engineCalls (snd (evalPolicyOnInput w rt policy ns input))) \<Longrightarrow> inp = input"
  unfolding evalPolicyOnInput_calls
  using queryLoop_calls_input[of "(q, inp)" w policy ns input _ initial_state]
  by (simp add: initial_state_def)

lemma demo_merge:
  "mergeValues demo_world [''base.yaml'', '' - ''] = Inr [(''a'', YMap [(''x'', YInt 1), (''y'', YInt 2)])]"
  by (simp add: mergeValues_def readFile_def strings_TrimSpace_def isSpace_def demo_world_def)

lemma demo_render:
  "validateAndRender demo_world ''chart'' m
     = Inr [(''chart/deploy.yaml'', ''replicas: 3''), (''chart/multi.yml'', demo_multi),
            (''chart/NOTES.txt'', ''replicas: 3'')]"
  by (simp add: validateAndRender_def demo_world_def)

lemma demo_split: "strings_Split demo_multi docSeparator = [''replicas: 3'', [], ''kind: Service'']"
  by (simp add: strings_Split_def demo_multi_def docSeparator_def strings_HasPrefix_def)

lemma demo_paths:
  "filepath_Ext ''chart/deploy.yaml'' = ''.yaml''" "filepath_Base ''chart/deploy.yaml'' = ''deploy.yaml''"
  "filepath_Ext ''chart/multi.yml'' = ''.yml''" "filepath_Base ''chart/multi.yml'' = ''multi.yml''"
  "filepath_Ext ''chart/NOTES.txt'' = ''.txt''" "filepath_Base ''chart/NOTES.txt'' = ''NOTES.txt''"
  by (simp_all add: filepath_Ext_def filepath_Base_def isPathSeparator_def Let_def)

lemma demo_parse:
  "yaml_Unmarshal demo_world ''replicas: 3'' = Inr (YMap [(''replicas'', YInt 3)])"
  "yaml_Unmarshal demo_world ''kind: Service'' = Inr (YMap [(''kind'', YStr ''Service'')])"
  "yaml_Unmarshal demo_world [] = Inr YNil"
  by (simp_all add: demo_world_def)

lemma demo_normalize:
  "UnmarshalYamlMap demo_world
      [(''chart/deploy.yaml'', ''replicas: 3''), (''chart/multi.yml'', demo_multi),
       (''chart/NOTES.txt'', ''replicas: 3'')]
   = Inr [(''deploy.yaml'', YMap [(''replicas'', YInt 3)]),
          (''multi.yml'', YSeq [YMap [(''replicas'', YInt 3)], YMap [(''kind'', YStr ''Service'')]]),
          (''NOTES.txt'', YStr ''replicas: 3'')]"
proof -
  have one: "strings_Split ''replicas: 3'' docSeparator = [''replicas: 3'']"
    by (simp add: strings_Split_def docSeparator_def strings_HasPrefix_def)
  show ?thesis
    by (simp add: UnmarshalYamlMap_def normalizeFile_def demo_paths demo_split one demo_parse)
qed

lemma demo_execute:
  "Execute demo_world rt_forward demo_command
     = (None,
        \<lparr>testResults = [(''data.main.assert[minReplicas]'', True), (''data.main.expect[service]'', True)],
         results = [[\<lparr>expr_text = ''data.main.assert[minReplicas]'', expr_value = YBool True\<rparr>],
                    [\<lparr>expr_text = ''data.main.expect[service]'', expr_value = YBool True\<rparr>]],
         engineCalls = [(''data.main.assert[minReplicas]'', demo_policy_input),
                        (''data.main.expect[service]'', demo_policy_input)],
         stdout = [PassLine ''data.main.assert[minReplicas]'', PassLine ''data.main.expect[service]'',
                   SuccessBanner],
         writer = [''Enter'', ''Exit'', ''Enter'', ''Exit'']\<rparr>)"
proof -
  have s: "setDefaults demo_command = demo_command\<lparr>Writer := Some Buffer, Namespace := ''main''\<rparr>"
    by (simp add: setDefaults_def demo_command_def)
  have o: "os_Open demo_world ''policy.rego'' = None" by (simp add: demo_world_def)
  have Q: "getQueryList demo_world ''policy.rego'' = [(''assert[minReplicas]'', 1), (''expect[service]'', 1)]"
    by (simp add: discovery_defs demo_defs)
  have run: "evalPolicyOnInput demo_world rt_forward ''policy.rego'' ''main'' demo_policy_input
     = (None,
        \<lparr>testResults = [(''data.main.assert[minReplicas]'', True), (''data.main.expect[service]'', True)],
         results = [[\<lparr>expr_text = ''data.main.assert[minReplicas]'', expr_value = YBool True\<rparr>],
                    [\<lparr>expr_text = ''data.main.expect[service]'', expr_value = YBool True\<rparr>]],
         engineCalls = [(''data.main.assert[minReplicas]'', demo_policy_input),
                        (''data.main.expect[service]'', demo_policy_input)],
         stdout = [PassLine ''data.main.assert[minReplicas]'', PassLine ''data.main.expect[service]'',
                   SuccessBanner],
         writer = [''Enter'', ''Exit'', ''Enter'', ''Exit'']\<rparr>)"
    unfolding evalPolicyOnInput_def Q by (simp add: eval_simps rt_forward_def)
  have fields: "Policy demo_command = ''policy.rego''" "Values demo_command = [''base.yaml'', '' - '']"
    "Template demo_command = ''chart''"
    by (simp_all add: demo_command_def)
  show ?thesis
    unfolding Execute_def s demo_policy_input_def
    using run[unfolded demo_policy_input_def]
    by (simp add: fields o demo_merge demo_render demo_normalize valuesHashName_def)
qed










section \<open>The claims\<close>

subsection \<open>Duplicate identifiers\<close>




subsection \<open>Test discovery\<close>

text \<open>
  Claim C2 as the specification words it fails: the head name \<open>expect_foo\<close> matches the
  grammar \<^verbatim>\<open>^(expect|assert)(_[A-Za-z]+)*$\<close>, and \<open>getQueryList\<close> returns the empty
  mapping for a program whose only rule has that head name.
\<close>

theorem getQueryList_underscore_name_counterexample:
  "spec_head_matches ''expect_foo''
   \<and> load_mods (tester_Load demo_world [''underscore.rego''])
       = [\<lparr>mod_rules = [\<lparr>head_name = ''expect_foo'', head_key = Some ''x''\<rparr>]\<rparr>]
   \<and> getQueryList demo_world ''underscore.rego'' = []"
  by (simp add: spec_head_matches_def isLetter_def discovery_defs demo_defs)

text \<open>
  Claim C2, amended. A rule whose head name is \<open>expect\<close> or \<open>assert\<close> (the head of the
  bracketed forms) is a test, and a rule is a test only when its head name is an initial
  segment of \<open>expect[\<close> or of \<open>assert[\<close>, which no name with an underscore segment is.
  The identifier of a rule is its head name followed by the key in brackets. The
  mapping \<open>getQueryList\<close> returns holds, for every identifier, the number of test rules
  with that identifier, and holds no other key: counts of 2 and more stay in it, and
  the function has no failure.
\<close>

theorem getQueryList_counts_bracketed_rules:
  "((head_name r = ''expect'' \<or> head_name r = ''assert'') \<longrightarrow> isTestRule r)
   \<and> (isTestRule r \<longrightarrow>
        (\<exists>rest. head_name r @ rest = ''expect['' \<or> head_name r @ rest = ''assert[''))
   \<and> testIdentifier r
        = head_name r @ ''['' @ (case head_key r of None \<Rightarrow> ''<nil>'' | Some key \<Rightarrow> key) @ '']''
   \<and> map_of (getQueryList w policy) k =
        (let n = int (length (filter (\<lambda>r. isTestRule r \<and> testIdentifier r = k)
                        (concat (map mod_rules (load_mods (tester_Load w [policy]))))))
         in if n = 0 then None else Some n)
   \<and> distinct (map fst (getQueryList w policy))"
proof -
  have a: "(head_name r = ''expect'' \<or> head_name r = ''assert'') \<longrightarrow> isTestRule r"
    by (auto simp: isTestRule_def strings_HasPrefix_def)
  have b: "isTestRule r \<longrightarrow>
        (\<exists>rest. head_name r @ rest = ''expect['' \<or> head_name r @ rest = ''assert['')"
    using isTestRule_iff[of r] by blast
  have c: "testIdentifier r
        = head_name r @ ''['' @ (case head_key r of None \<Rightarrow> ''<nil>'' | Some key \<Rightarrow> key) @ '']''"
    by (simp add: testIdentifier_def)
  have d: "map_of (getQueryList w policy) k =
        (let n = int (length (filter (\<lambda>r. isTestRule r \<and> testIdentifier r = k)
                        (concat (map mod_rules (load_mods (tester_Load w [policy]))))))
         in if n = 0 then None else Some n)"
    using getQueryList_lookup[of w policy k] by (simp add: occurrences_def)
  from a b c d getQueryList_distinct[of w policy] show ?thesis by blast
qed

theorem getQueryList_counts_bracketed_rules_witness:
  "isTestRule (demo_rule ''assert'' ''b'')
   \<and> testIdentifier (demo_rule ''assert'' ''b'') = ''assert[b]''
   \<and> map_of (getQueryList demo_world ''duplicate.rego'') ''assert[b]'' = Some 2
   \<and> map_of (getQueryList demo_world ''duplicate.rego'') ''expect[a]'' = Some 1
   \<and> map_of (getQueryList demo_world ''duplicate.rego'') ''assert[a]'' = None"
proof -
  note t = getQueryList_counts_bracketed_rules[of "demo_rule ''assert'' ''b''" demo_world "''duplicate.rego''"]
  have n: "head_name (demo_rule ''assert'' ''b'') = ''assert''" by (simp add: demo_rule_def)
  show ?thesis
    using t[of "''assert[b]''"] t[of "''expect[a]''"] t[of "''assert[a]''"] n
    by (simp add: demo_defs discovery_defs)
qed

text \<open>
  The test \<open>strings.HasPrefix("expect[", name)\<close> asks whether the name is a prefix of
  the literal, so a rule with the head name \<open>e\<close> is counted as a test as well.
\<close>

lemma short_head_name_is_test:
  "\<not> spec_head_matches ''e'' \<and> isTestRule (demo_rule ''e'' ''x'')
   \<and> getQueryList (demo_world\<lparr>tester_Load :=
         \<lambda>args. \<lparr>load_mods = [\<lparr>mod_rules = [demo_rule ''e'' ''x'']\<rparr>], load_err = None\<rparr>\<rparr>) ''p''
       = [(''e[x]'', 1)]"
  by (simp add: spec_head_matches_def discovery_defs demo_defs)

subsection \<open>Classifying one test\<close>

text \<open>
  Claim C3. In a run without duplicate identifiers in which the engine answers every
  query, a discovered identifier \<open>k\<close> is queried once, with the query string
  \<open>data.<namespace>.<k>\<close>, and its entry in \<open>testResults\<close> is true exactly when some
  result of the engine's result set has an expression whose text is that query string. An
  empty result set makes the entry false; the run then returns success or
  \<open>PolicyFailure\<close>, never an evaluation error. The last two conjuncts say the same of
  the loop body alone, from any state.
\<close>

theorem query_classification:
  assumes "range_ok rt"
    and "list_all (\<lambda>e. snd e \<le> 1) (getQueryList w policy)"
    and "list_all (\<lambda>e. answers w policy namespace input (fst e)) (getQueryList w policy)"
    and "(k, n) \<in> set (getQueryList w policy)"
    and "rego_Query w policy (''data.'' @ namespace @ ''.'' @ k) input = Evaluated resultSet buf"
  shows "map_of (testResults (snd (evalPolicyOnInput w rt policy namespace input)))
           (''data.'' @ namespace @ ''.'' @ k)
         = Some (list_ex (\<lambda>result. list_ex (\<lambda>expression.
                    expr_text expression = ''data.'' @ namespace @ ''.'' @ k) result) resultSet)
       \<and> (resultSet = [] \<longrightarrow>
            map_of (testResults (snd (evalPolicyOnInput w rt policy namespace input)))
              (''data.'' @ namespace @ ''.'' @ k) = Some False)
       \<and> count_list (engineCalls (snd (evalPolicyOnInput w rt policy namespace input)))
           (''data.'' @ namespace @ ''.'' @ k, input) = 1
       \<and> (fst (evalPolicyOnInput w rt policy namespace input) = None
            \<or> fst (evalPolicyOnInput w rt policy namespace input) = Some PolicyFailure)
       \<and> fst (queryStep w policy namespace input st (k, n)) = None
       \<and> testResults (snd (queryStep w policy namespace input st (k, n)))
           = AList.update (''data.'' @ namespace @ ''.'' @ k)
               (list_ex (\<lambda>result. list_ex (\<lambda>expression.
                    expr_text expression = ''data.'' @ namespace @ ''.'' @ k) result) resultSet)
               (testResults st)"
proof -
  let ?Q = "getQueryList w policy"
  let ?xs = "rangeQueryList rt ?Q"
  let ?R = "evalPolicyOnInput w rt policy namespace input"
  let ?q = "''data.'' @ namespace @ ''.'' @ k"
  have q: "queryStringOf namespace k = ?q" by (simp add: queryStringOf_def)
  have ne: "?Q \<noteq> []" using assms(4) by auto
  note run = run_all_proceed[OF assms(1,2,3) ne]
  have mem: "(k, n) \<in> set ?xs" using assms(4) by (simp add: range_queries(2)[OF assms(1)])
  have d: "distinct (map fst ?xs)"
    by (simp add: range_queries(5)[OF assms(1)] getQueryList_distinct)
  have pass: "passes w policy namespace input k = matched ?q resultSet"
    using assms(5) by (simp add: passes_def q)
  have m: "matched ?q resultSet = list_ex (\<lambda>result. list_ex (\<lambda>expression.
                    expr_text expression = ?q) result) resultSet"
    by (simp add: matched_def)
  have "(?q, matched ?q resultSet) \<in> set (map (classified w policy namespace input) ?xs)"
    using mem pass q by (force simp: classified_def)
  moreover have "distinct (map fst (map (classified w policy namespace input) ?xs))"
    using distinct_queryStrings[OF d, of w policy namespace input] by (simp add: comp_def)
  ultimately have look: "map_of (testResults (snd ?R)) ?q = Some (matched ?q resultSet)"
    unfolding run(2) by (rule map_of_is_SomeI[rotated])
  have empty: "resultSet = [] \<longrightarrow> map_of (testResults (snd ?R)) ?q = Some False"
    using look by (simp add: matched_def)
  have dc: "distinct (map (callOf namespace input) ?xs)"
    using d by (auto simp: distinct_map inj_on_def callOf_def queryStringOf_inj)
  have "(?q, input) \<in> set (map (callOf namespace input) ?xs)"
    using mem q by (force simp: callOf_def)
  then have once: "count_list (engineCalls (snd ?R)) (?q, input) = 1"
    unfolding run(3) by (rule distinct_count_list[OF dc])
  have verdict: "fst ?R = None \<or> fst ?R = Some PolicyFailure"
    unfolding run(1) by simp
  have p: "proceeds w policy namespace input (k, n)"
    using assms(2,3,4) by (auto simp: proceeds_def list_all_iff)
  have step1: "fst (queryStep w policy namespace input st (k, n)) = None"
    by (rule queryStep_proceeds(1)[OF p])
  have step2: "testResults (snd (queryStep w policy namespace input st (k, n)))
           = AList.update ?q (matched ?q resultSet) (testResults st)"
    using queryStep_proceeds(2)[OF p, of st] pass q by simp
  show ?thesis
    using look empty once verdict step1 step2 unfolding m by blast
qed

theorem query_classification_witness:
  "range_ok rt_backward
   \<and> getQueryList demo_world ''failing.rego'' = [(''assert[minReplicas]'', 1), (''assert[maxReplicas]'', 1)]
   \<and> rego_Query demo_world ''failing.rego'' ''data.main.assert[maxReplicas]'' demo_input
        = Evaluated [] [''Enter'', ''Fail'']
   \<and> map_of (testResults (snd (evalPolicyOnInput demo_world rt_backward ''failing.rego'' ''main'' demo_input)))
        ''data.main.assert[maxReplicas]'' = Some False
   \<and> map_of (testResults (snd (evalPolicyOnInput demo_world rt_backward ''failing.rego'' ''main'' demo_input)))
        ''data.main.assert[minReplicas]'' = Some True
   \<and> count_list (engineCalls (snd (evalPolicyOnInput demo_world rt_backward ''failing.rego'' ''main'' demo_input)))
        (''data.main.assert[maxReplicas]'', demo_input) = 1"
proof -
  have Q: "getQueryList demo_world ''failing.rego'' = [(''assert[minReplicas]'', 1), (''assert[maxReplicas]'', 1)]"
    by (simp add: discovery_defs demo_defs)
  have h2: "list_all (\<lambda>e. snd e \<le> 1) (getQueryList demo_world ''failing.rego'')"
    unfolding Q by simp
  have h3: "list_all (\<lambda>e. answers demo_world ''failing.rego'' ''main'' demo_input (fst e))
              (getQueryList demo_world ''failing.rego'')"
    unfolding Q by (simp add: answers_def queryStringOf_def demo_world_def demo_rego_def)
  have m1: "(''assert[maxReplicas]'', 1) \<in> set (getQueryList demo_world ''failing.rego'')"
    unfolding Q by simp
  have m2: "(''assert[minReplicas]'', 1) \<in> set (getQueryList demo_world ''failing.rego'')"
    unfolding Q by simp
  have e1: "rego_Query demo_world ''failing.rego'' (''data.'' @ ''main'' @ ''.'' @ ''assert[maxReplicas]'') demo_input
        = Evaluated [] [''Enter'', ''Fail'']"
    by (simp add: demo_world_def demo_rego_def)
  have e2: "rego_Query demo_world ''failing.rego'' (''data.'' @ ''main'' @ ''.'' @ ''assert[minReplicas]'') demo_input
        = Evaluated [[\<lparr>expr_text = ''data.main.assert[minReplicas]'', expr_value = YBool True\<rparr>]] [''Enter'', ''Exit'']"
    by (simp add: demo_world_def demo_rego_def)
  from query_classification[OF range_ok_backward h2 h3 m1 e1]
    query_classification[OF range_ok_backward h2 h3 m2 e2] Q e1 range_ok_backward
  show ?thesis by simp
qed

subsection \<open>A run without tests\<close>

text \<open>
  Claim C4. When discovery returns the empty mapping, \<open>evalPolicyOnInput\<close> returns
  \<open>UnmatchedQuery\<close>: it is not a success, nothing is printed (no report line and no
  success banner), and the engine is not called.
\<close>

theorem no_tests_is_UnmatchedQuery:
  assumes "range_ok rt" and "getQueryList w policy = []"
  shows "evalPolicyOnInput w rt policy namespace input = (Some UnmatchedQuery, initial_state)
       \<and> fst (evalPolicyOnInput w rt policy namespace input) \<noteq> None
       \<and> stdout (snd (evalPolicyOnInput w rt policy namespace input)) = []
       \<and> engineCalls (snd (evalPolicyOnInput w rt policy namespace input)) = []"
  using evalPolicyOnInput_empty[OF assms] by (simp add: initial_state_def)

theorem no_tests_is_UnmatchedQuery_witness:
  "range_ok rt_backward
   \<and> getQueryList demo_world ''underscore.rego'' = []
   \<and> evalPolicyOnInput demo_world rt_backward ''underscore.rego'' ''main'' demo_input
       = (Some UnmatchedQuery, initial_state)"
proof -
  have q: "getQueryList demo_world ''underscore.rego'' = []"
    by (simp add: discovery_defs demo_defs)
  from no_tests_is_UnmatchedQuery[OF range_ok_backward q, of "''main''" demo_input]
  show ?thesis using range_ok_backward q by simp
qed

subsection \<open>The verdict of a run\<close>

text \<open>
  Claim C5. In a run with at least one discovered test, no duplicate identifier and an
  engine that answers every query, the run returns \<open>PolicyFailure\<close> exactly when some
  entry of \<open>testResults\<close> is false, returns success (no error) exactly when every entry
  is true, and returns nothing else. \<open>testResults\<close> holds one entry per identifier, the
  classification of its query, and standard output holds one \<open>PASS\<close> or \<open>FAIL\<close> line
  per entry, followed by the banner of the verdict.
\<close>

theorem verdict_of_classified_tests:
  assumes "range_ok rt"
    and "getQueryList w policy \<noteq> []"
    and "list_all (\<lambda>e. snd e \<le> 1) (getQueryList w policy)"
    and "list_all (\<lambda>e. answers w policy namespace input (fst e)) (getQueryList w policy)"
  shows "(fst (evalPolicyOnInput w rt policy namespace input) = Some PolicyFailure
            \<longleftrightarrow> list_ex (\<lambda>entry. \<not> snd entry)
                  (testResults (snd (evalPolicyOnInput w rt policy namespace input))))
       \<and> (fst (evalPolicyOnInput w rt policy namespace input) = None
            \<longleftrightarrow> list_all snd (testResults (snd (evalPolicyOnInput w rt policy namespace input))))
       \<and> (fst (evalPolicyOnInput w rt policy namespace input) = None
            \<or> fst (evalPolicyOnInput w rt policy namespace input) = Some PolicyFailure)
       \<and> mset (testResults (snd (evalPolicyOnInput w rt policy namespace input)))
           = mset (map (classified w policy namespace input) (getQueryList w policy))
       \<and> mset (stdout (snd (evalPolicyOnInput w rt policy namespace input)))
           = mset (map reportLine (testResults (snd (evalPolicyOnInput w rt policy namespace input))))
             + {#if fst (evalPolicyOnInput w rt policy namespace input) = None
                 then SuccessBanner else FailureBanner#}
       \<and> length (filter isReportLine (stdout (snd (evalPolicyOnInput w rt policy namespace input))))
           = length (getQueryList w policy)"
proof -
  let ?Q = "getQueryList w policy"
  let ?xs = "rangeQueryList rt ?Q"
  let ?R = "evalPolicyOnInput w rt policy namespace input"
  let ?tr = "map (classified w policy namespace input) ?xs"
  note run = run_all_proceed[OF assms(1,3,4,2)]
  have all: "list_all snd ?tr = list_all (\<lambda>e. passes w policy namespace input (fst e)) ?Q"
    using range_queries(3)[OF assms(1), of "\<lambda>e. passes w policy namespace input (fst e)" ?Q]
    by (simp add: list_all_iff classified_def)
  have ex: "list_ex (\<lambda>entry. \<not> snd entry) ?tr \<longleftrightarrow> \<not> list_all snd ?tr"
    by (simp add: list_all_iff list_ex_iff)
  have a: "fst ?R = Some PolicyFailure \<longleftrightarrow> list_ex (\<lambda>entry. \<not> snd entry) (testResults (snd ?R))"
    unfolding run(2) ex all run(1) by simp
  have b: "fst ?R = None \<longleftrightarrow> list_all snd (testResults (snd ?R))"
    unfolding run(2) all run(1) by simp
  have c: "fst ?R = None \<or> fst ?R = Some PolicyFailure"
    unfolding run(1) by simp
  have d: "mset (testResults (snd ?R)) = mset (map (classified w policy namespace input) ?Q)"
    unfolding run(2) using range_queries(1)[OF assms(1), of ?Q] by (metis mset_map)
  have "mset (map reportLine (rangeTestResults rt ?tr)) = mset (map reportLine ?tr)"
    using range_results(1)[OF assms(1), of ?tr] by (metis mset_map)
  then have e: "mset (stdout (snd ?R)) = mset (map reportLine (testResults (snd ?R)))
             + {#if fst ?R = None then SuccessBanner else FailureBanner#}"
    unfolding run(4) run(2) run(1) by simp
  have rl: "filter isReportLine (map reportLine ys) = map reportLine ys" for ys
    by (induction ys) (simp_all add: reportLine_def isReportLine_def)
  have "length (rangeTestResults rt ?tr) = length ?tr"
    using range_results(1)[OF assms(1), of ?tr] by (rule mset_eq_length)
  moreover have "length ?xs = length ?Q"
    using range_queries(1)[OF assms(1), of ?Q] by (rule mset_eq_length)
  ultimately have f: "length (filter isReportLine (stdout (snd ?R))) = length ?Q"
    unfolding run(4) by (simp add: rl isReportLine_def)
  from a b c d e f show ?thesis by blast
qed

theorem verdict_of_classified_tests_witness:
  "range_ok rt_backward
   \<and> getQueryList demo_world ''failing.rego'' = [(''assert[minReplicas]'', 1), (''assert[maxReplicas]'', 1)]
   \<and> fst (evalPolicyOnInput demo_world rt_backward ''failing.rego'' ''main'' demo_input) = Some PolicyFailure
   \<and> list_ex (\<lambda>entry. \<not> snd entry)
        (testResults (snd (evalPolicyOnInput demo_world rt_backward ''failing.rego'' ''main'' demo_input)))
   \<and> length (filter isReportLine
        (stdout (snd (evalPolicyOnInput demo_world rt_backward ''failing.rego'' ''main'' demo_input)))) = 2
   \<and> stdout (snd (evalPolicyOnInput demo_world rt_backward ''failing.rego'' ''main'' demo_input))
       = [FailLine ''data.main.assert[maxReplicas]'', PassLine ''data.main.assert[minReplicas]'',
          FailureBanner]
   \<and> evalPolicyOnInput demo_world rt_forward ''policy.rego'' ''main'' demo_input
       = (None,
          \<lparr>testResults = [(''data.main.assert[minReplicas]'', True), (''data.main.expect[service]'', True)],
           results = [[\<lparr>expr_text = ''data.main.assert[minReplicas]'', expr_value = YBool True\<rparr>],
                      [\<lparr>expr_text = ''data.main.expect[service]'', expr_value = YBool True\<rparr>]],
           engineCalls = [(''data.main.assert[minReplicas]'', demo_input),
                          (''data.main.expect[service]'', demo_input)],
           stdout = [PassLine ''data.main.assert[minReplicas]'', PassLine ''data.main.expect[service]'',
                     SuccessBanner],
           writer = [''Enter'', ''Exit'', ''Enter'', ''Exit'']\<rparr>)"
proof -
  have Q: "getQueryList demo_world ''failing.rego'' = [(''assert[minReplicas]'', 1), (''assert[maxReplicas]'', 1)]"
    by (simp add: discovery_defs demo_defs)
  have h2: "getQueryList demo_world ''failing.rego'' \<noteq> []" unfolding Q by simp
  have h3: "list_all (\<lambda>e. snd e \<le> 1) (getQueryList demo_world ''failing.rego'')"
    unfolding Q by simp
  have h4: "list_all (\<lambda>e. answers demo_world ''failing.rego'' ''main'' demo_input (fst e))
              (getQueryList demo_world ''failing.rego'')"
    unfolding Q by (simp add: answers_def queryStringOf_def demo_world_def demo_rego_def)
  have run: "evalPolicyOnInput demo_world rt_backward ''failing.rego'' ''main'' demo_input
    = (Some PolicyFailure,
       \<lparr>testResults = [(''data.main.assert[maxReplicas]'', False), (''data.main.assert[minReplicas]'', True)],
        results = [[\<lparr>expr_text = ''data.main.assert[minReplicas]'', expr_value = YBool True\<rparr>]],
        engineCalls = [(''data.main.assert[maxReplicas]'', demo_input),
                       (''data.main.assert[minReplicas]'', demo_input)],
        stdout = [FailLine ''data.main.assert[maxReplicas]'', PassLine ''data.main.assert[minReplicas]'',
                  FailureBanner],
        writer = [''Enter'', ''Fail'', ''Enter'', ''Exit'']\<rparr>)"
    unfolding evalPolicyOnInput_def Q
    by (simp add: eval_simps rt_backward_def)
  have Q2: "getQueryList demo_world ''policy.rego'' = [(''assert[minReplicas]'', 1), (''expect[service]'', 1)]"
    by (simp add: discovery_defs demo_defs)
  have run2: "evalPolicyOnInput demo_world rt_forward ''policy.rego'' ''main'' demo_input
       = (None,
          \<lparr>testResults = [(''data.main.assert[minReplicas]'', True), (''data.main.expect[service]'', True)],
           results = [[\<lparr>expr_text = ''data.main.assert[minReplicas]'', expr_value = YBool True\<rparr>],
                      [\<lparr>expr_text = ''data.main.expect[service]'', expr_value = YBool True\<rparr>]],
           engineCalls = [(''data.main.assert[minReplicas]'', demo_input),
                          (''data.main.expect[service]'', demo_input)],
           stdout = [PassLine ''data.main.assert[minReplicas]'', PassLine ''data.main.expect[service]'',
                     SuccessBanner],
           writer = [''Enter'', ''Exit'', ''Enter'', ''Exit'']\<rparr>)"
    unfolding evalPolicyOnInput_def Q2
    by (simp add: eval_simps rt_forward_def)
  from verdict_of_classified_tests[OF range_ok_backward h2 h3 h4]
  show ?thesis using range_ok_backward Q run run2 by (simp add: isReportLine_def)
qed

subsection \<open>Merging override documents\<close>



subsection \<open>Normalising one rendered file\<close>



subsection \<open>The input document of the engine\<close>

text \<open>
  Claim C8. Every query that a run of the command hands to the engine carries the same
  input document: the normalised rendered files, with the merged values stored under
  the key \<open>values\<close>. Its keys are those of the normalised files and \<open>values\<close>, and every
  other key holds what the normaliser stored for it.
\<close>

theorem policy_input_holds_values:
  assumes "(q, inp) \<in> set (engineCalls (snd (Execute w rt s)))"
  shows "\<exists>valuesConfig renderedOutput policyInput doc.
           mergeValues w (Values s) = Inr valuesConfig
         \<and> validateAndRender w (Template s) valuesConfig = Inr renderedOutput
         \<and> UnmarshalYamlMap w renderedOutput = Inr policyInput
         \<and> inp = YMap doc
         \<and> map_of doc ''values'' = Some (YMap valuesConfig)
         \<and> fst ` set doc = fst ` set policyInput \<union> {''values''}
         \<and> (\<forall>key. key \<noteq> ''values'' \<longrightarrow> map_of doc key = map_of policyInput key)"
proof -
  have v: "Values (setDefaults s) = Values s" and t: "Template (setDefaults s) = Template s"
    by (simp_all add: setDefaults_def Let_def)
  from assms obtain valuesConfig renderedOutput policyInput
    where m: "mergeValues w (Values s) = Inr valuesConfig"
      and r: "validateAndRender w (Template s) valuesConfig = Inr renderedOutput"
      and u: "UnmarshalYamlMap w renderedOutput = Inr policyInput"
      and c: "(q, inp) \<in> set (engineCalls (snd (evalPolicyOnInput w rt (Policy (setDefaults s))
                 (Namespace (setDefaults s))
                 (YMap (AList.update valuesHashName (YMap valuesConfig) policyInput)))))"
    unfolding Execute_def Let_def v t
    by (auto simp: initial_state_def split: if_splits sum.splits)
  let ?doc = "AList.update valuesHashName (YMap valuesConfig) policyInput"
  have i: "inp = YMap ?doc" using evalPolicyOnInput_calls_input[OF c] .
  have a: "map_of ?doc ''values'' = Some (YMap valuesConfig)"
    by (simp add: update_conv' valuesHashName_def)
  have b: "fst ` set ?doc = fst ` set policyInput \<union> {''values''}"
    by (auto simp: dom_update valuesHashName_def)
  have d: "\<forall>key. key \<noteq> ''values'' \<longrightarrow> map_of ?doc key = map_of policyInput key"
    by (simp add: update_conv' valuesHashName_def)
  from m r u i a b d show ?thesis by blast
qed

theorem policy_input_holds_values_witness:
  "(''data.main.assert[minReplicas]'', demo_policy_input)
      \<in> set (engineCalls (snd (Execute demo_world rt_forward demo_command)))
   \<and> (\<exists>valuesConfig renderedOutput policyInput doc.
           mergeValues demo_world (Values demo_command) = Inr valuesConfig
         \<and> validateAndRender demo_world (Template demo_command) valuesConfig = Inr renderedOutput
         \<and> UnmarshalYamlMap demo_world renderedOutput = Inr policyInput
         \<and> demo_policy_input = YMap doc
         \<and> map_of doc ''values'' = Some (YMap valuesConfig)
         \<and> fst ` set doc = fst ` set policyInput \<union> {''values''}
         \<and> (\<forall>key. key \<noteq> ''values'' \<longrightarrow> map_of doc key = map_of policyInput key))"
proof -
  have m: "(''data.main.assert[minReplicas]'', demo_policy_input)
      \<in> set (engineCalls (snd (Execute demo_world rt_forward demo_command)))"
    by (simp add: demo_execute)
  from policy_input_holds_values[OF m] m show ?thesis by blast
qed

subsection \<open>The order of iteration\<close>

text \<open>
  Claim C9. For a fixed discovered mapping and a fixed engine, two orders of iteration
  over the maps give the same verdict: both runs succeed or neither does, both return
  \<open>PolicyFailure\<close> or neither does, both return \<open>UnmatchedQuery\<close> or neither does; and
  when the engine answers every query the two runs return the same error value.
\<close>

theorem verdict_independent_of_range_order:
  assumes "range_ok rt1" and "range_ok rt2"
  shows "(fst (evalPolicyOnInput w rt1 policy namespace input) = None
            \<longleftrightarrow> fst (evalPolicyOnInput w rt2 policy namespace input) = None)
       \<and> (fst (evalPolicyOnInput w rt1 policy namespace input) = Some PolicyFailure
            \<longleftrightarrow> fst (evalPolicyOnInput w rt2 policy namespace input) = Some PolicyFailure)
       \<and> (fst (evalPolicyOnInput w rt1 policy namespace input) = Some UnmatchedQuery
            \<longleftrightarrow> fst (evalPolicyOnInput w rt2 policy namespace input) = Some UnmatchedQuery)
       \<and> (list_all (\<lambda>e. answers w policy namespace input (fst e)) (getQueryList w policy)
            \<longrightarrow> fst (evalPolicyOnInput w rt1 policy namespace input)
                 = fst (evalPolicyOnInput w rt2 policy namespace input))"
  using verdict_cases(1)[OF assms(1), of w policy namespace input]
    verdict_cases(1)[OF assms(2), of w policy namespace input]
    verdict_cases(2)[OF assms(1), of w policy namespace input]
    verdict_cases(2)[OF assms(2), of w policy namespace input]
    verdict_cases(3)[OF assms(1), of w policy namespace input]
    verdict_cases(3)[OF assms(2), of w policy namespace input]
    verdict_cases(4)[OF assms(1), of w policy namespace input]
    verdict_cases(4)[OF assms(2), of w policy namespace input]
  by presburger

theorem verdict_independent_of_range_order_witness:
  "range_ok rt_forward \<and> range_ok rt_backward
   \<and> fst (evalPolicyOnInput demo_world rt_forward ''failing.rego'' ''main'' demo_input) = Some PolicyFailure
   \<and> fst (evalPolicyOnInput demo_world rt_backward ''failing.rego'' ''main'' demo_input) = Some PolicyFailure
   \<and> stdout (snd (evalPolicyOnInput demo_world rt_forward ''failing.rego'' ''main'' demo_input))
       \<noteq> stdout (snd (evalPolicyOnInput demo_world rt_backward ''failing.rego'' ''main'' demo_input))"
proof -
  have Q: "getQueryList demo_world ''failing.rego'' = [(''assert[minReplicas]'', 1), (''assert[maxReplicas]'', 1)]"
    by (simp add: discovery_defs demo_defs)
  have f: "evalPolicyOnInput demo_world rt_forward ''failing.rego'' ''main'' demo_input
    = (Some PolicyFailure,
       \<lparr>testResults = [(''data.main.assert[minReplicas]'', True), (''data.main.assert[maxReplicas]'', False)],
        results = [[\<lparr>expr_text = ''data.main.assert[minReplicas]'', expr_value = YBool True\<rparr>]],
        engineCalls = [(''data.main.assert[minReplicas]'', demo_input),
                       (''data.main.assert[maxReplicas]'', demo_input)],
        stdout = [PassLine ''data.main.assert[minReplicas]'', FailLine ''data.main.assert[maxReplicas]'',
                  FailureBanner],
        writer = [''Enter'', ''Exit'', ''Enter'', ''Fail'']\<rparr>)"
    unfolding evalPolicyOnInput_def Q
    by (simp add: eval_simps rt_forward_def)
  have b: "stdout (snd (evalPolicyOnInput demo_world rt_backward ''failing.rego'' ''main'' demo_input))
    = [FailLine ''data.main.assert[maxReplicas]'', PassLine ''data.main.assert[minReplicas]'', FailureBanner]"
    unfolding evalPolicyOnInput_def Q
    by (simp add: eval_simps rt_backward_def)
  from verdict_independent_of_range_order[OF range_ok_forward range_ok_backward,
      of demo_world "''failing.rego''" "''main''" demo_input]
  show ?thesis using range_ok_forward range_ok_backward f b by simp
qed

text \<open>
  Where a duplicate identifier and a query the engine cannot evaluate meet in one
  program, both orders fail, with the error of the entry visited first.
\<close>

lemma fatal_error_depends_on_order:
  "fst (evalPolicyOnInput demo_world rt_forward ''mixed.rego'' ''main'' demo_input)
     = Some (Wrapped ''failed eval on policies'' (External ''eval_internal_error''))
   \<and> fst (evalPolicyOnInput demo_world rt_backward ''mixed.rego'' ''main'' demo_input)
     = Some DuplicatePolicyFailure"
proof -
  have Q: "getQueryList demo_world ''mixed.rego'' = [(''assert[broken]'', 1), (''assert[b]'', 2)]"
    by (simp add: discovery_defs demo_defs)
  show ?thesis
    unfolding evalPolicyOnInput_def Q
    by (simp add: eval_simps rt_forward_def rt_backward_def)
qed

subsection \<open>A policy program that fails to load\<close>

text \<open>
  Claim C10. \<open>getQueryList\<close> never reads the error of \<open>tester.Load\<close>: with the error
  erased it returns the same mapping. When the load fails, and as \<open>tester.Load\<close> does
  then returns no modules, the mapping is empty and the run ends with \<open>UnmatchedQuery\<close>
  instead of the load error.
\<close>

theorem load_error_is_discarded:
  assumes "range_ok rt"
    and "load_err (tester_Load w [policy]) = Some e"
    and "load_mods (tester_Load w [policy]) = []"
  shows "getQueryList w policy = []
       \<and> evalPolicyOnInput w rt policy namespace input = (Some UnmatchedQuery, initial_state)
       \<and> getQueryList (w\<lparr>tester_Load := \<lambda>args. (tester_Load w args)\<lparr>load_err := None\<rparr>\<rparr>) policy
           = getQueryList w policy"
proof -
  have q: "getQueryList w policy = []" using assms(3) by (simp add: getQueryList_def)
  have "getQueryList (w\<lparr>tester_Load := \<lambda>args. (tester_Load w args)\<lparr>load_err := None\<rparr>\<rparr>) policy
           = getQueryList w policy"
    by (simp add: getQueryList_def)
  then show ?thesis using q evalPolicyOnInput_empty[OF assms(1) q] by simp
qed

theorem load_error_is_discarded_witness:
  "range_ok rt_forward
   \<and> load_err (tester_Load demo_world [''broken.rego'']) = Some (External ''rego_parse_error'')
   \<and> load_mods (tester_Load demo_world [''broken.rego'']) = []
   \<and> getQueryList demo_world ''broken.rego'' = []
   \<and> evalPolicyOnInput demo_world rt_forward ''broken.rego'' ''main'' demo_input
       = (Some UnmatchedQuery, initial_state)"
proof -
  have e: "load_err (tester_Load demo_world [''broken.rego'']) = Some (External ''rego_parse_error'')"
    by (simp add: demo_defs)
  have m: "load_mods (tester_Load demo_world [''broken.rego'']) = []"
    by (simp add: demo_defs)
  from load_error_is_discarded[OF range_ok_forward e m, of "''main''" demo_input]
  show ?thesis using range_ok_forward e m by simp
qed

end
